theory Spec2Isabelle
  imports Complex_Main "HOL-Library.List_Lexorder" "HOL-Library.Char_ord"
    "HOL-Library.Product_Lexorder"
begin

section \<open>Numbers as the aggregation engine sees them\<close>

text \<open>
  The metric functions of \<^verbatim>\<open>src/data.py\<close> compute with NumPy floats. Rounding is not
  modelled: a finite float is a real number. What is modelled is the part of IEEE-754
  arithmetic that decides the behaviour of a division whose denominator is zero or
  missing: the values \<open>inf\<close>, \<open>-inf\<close> and \<open>NaN\<close>, which NumPy returns instead of
  raising. Signed zeros are not distinguished (every zero is \<open>+0\<close>).
\<close>

datatype fval = Fin real | PInf | NInf | NaN

fun fneg :: "fval \<Rightarrow> fval" where
  "fneg (Fin a) = Fin (- a)"
| "fneg PInf = NInf"
| "fneg NInf = PInf"
| "fneg NaN = NaN"

fun fadd :: "fval \<Rightarrow> fval \<Rightarrow> fval" where
  "fadd NaN _ = NaN"
| "fadd _ NaN = NaN"
| "fadd (Fin a) (Fin b) = Fin (a + b)"
| "fadd (Fin a) PInf = PInf"
| "fadd (Fin a) NInf = NInf"
| "fadd PInf (Fin b) = PInf"
| "fadd NInf (Fin b) = NInf"
| "fadd PInf PInf = PInf"
| "fadd NInf NInf = NInf"
| "fadd PInf NInf = NaN"
| "fadd NInf PInf = NaN"

definition fsub :: "fval \<Rightarrow> fval \<Rightarrow> fval" where
  "fsub a b = fadd a (fneg b)"

text \<open>The sign of an infinite product or quotient: \<open>s\<close> is the sign of the finite operand.\<close>

definition signed_inf :: "real \<Rightarrow> fval" where
  "signed_inf s = (if 0 < s then PInf else if s < 0 then NInf else NaN)"

fun fmul :: "fval \<Rightarrow> fval \<Rightarrow> fval" where
  "fmul NaN _ = NaN"
| "fmul _ NaN = NaN"
| "fmul (Fin a) (Fin b) = Fin (a * b)"
| "fmul (Fin a) PInf = signed_inf a"
| "fmul (Fin a) NInf = signed_inf (- a)"
| "fmul PInf (Fin b) = signed_inf b"
| "fmul NInf (Fin b) = signed_inf (- b)"
| "fmul PInf PInf = PInf"
| "fmul NInf NInf = PInf"
| "fmul PInf NInf = NInf"
| "fmul NInf PInf = NInf"

text \<open>
  Division as NumPy does it on float arrays: \<open>x / 0\<close> is \<open>inf\<close> with the sign of
  \<open>x\<close>, \<open>0 / 0\<close> is \<open>NaN\<close>, and nothing is raised.
\<close>

fun fdiv :: "fval \<Rightarrow> fval \<Rightarrow> fval" where
  "fdiv NaN _ = NaN"
| "fdiv _ NaN = NaN"
| "fdiv (Fin a) (Fin b) = (if b = 0 then signed_inf a else Fin (a / b))"
| "fdiv (Fin a) PInf = Fin 0"
| "fdiv (Fin a) NInf = Fin 0"
| "fdiv PInf (Fin b) = (if b < 0 then NInf else PInf)"
| "fdiv NInf (Fin b) = (if b < 0 then PInf else NInf)"
| "fdiv PInf PInf = NaN"
| "fdiv NInf NInf = NaN"
| "fdiv PInf NInf = NaN"
| "fdiv NInf PInf = NaN"

text \<open>\<open>a > b\<close> on floats; every comparison with \<open>NaN\<close> is false.\<close>

fun fgt :: "fval \<Rightarrow> fval \<Rightarrow> bool" where
  "fgt NaN _ = False"
| "fgt _ NaN = False"
| "fgt (Fin a) (Fin b) = (b < a)"
| "fgt PInf PInf = False"
| "fgt PInf _ = True"
| "fgt NInf _ = False"
| "fgt (Fin a) PInf = False"
| "fgt (Fin a) NInf = True"

definition of_count :: "nat \<Rightarrow> fval" where
  "of_count n = Fin (real n)"

section \<open>Incident records and data frames\<close>

text \<open>
  One row of \<^verbatim>\<open>datasets/processed_data.parquet\<close>. The file itself is not part of the
  sources; the columns are the ones the code reads. Dates and times are timestamps in
  seconds. Input cells are present and finite: missing input values are outside the model.
\<close>

record incident =
  state_code :: string
  company_name :: string
  date_of_incident :: int
  type_of_incident :: string
  time_started_work :: int
  time_of_incident :: int
  establishment_type :: string
  incident_outcome :: string
  soc_description_1 :: string
  soc_description_2 :: string
  naics_description_5 :: string
  death :: real
  dafw_num_away :: real
  djtr_num_tr :: real
  case_number :: int
  annual_average_employees :: real
  total_hours_worked :: real

text \<open>
  A data frame of incident records. The dtype of \<open>state_code\<close> decides what
  \<open>groupby(..., observed=False)\<close> returns and is a property of the parquet file, so it is a
  parameter: \<open>state_cats = None\<close> is a plain string column, \<open>Some cs\<close> a categorical
  column with the categories \<open>cs\<close>. Row selection keeps the dtype. The row labels are
  unique, so that \<open>temp.loc[group.index]\<close> selects the rows of the group and no others.
\<close>

record dataframe =
  rows :: "incident list"
  state_cats :: "string list option"

text \<open>
  A pandas object has an identity, which \<open>df is data\<close> compares: a frame object is the
  identity of the object together with the frame it holds.
\<close>

type_synonym frame_obj = "nat \<times> dataframe"

text \<open>
  The optional secondary grouping column \<open>column\<close>: the column's values and, when it is
  categorical, its categories.
\<close>

type_synonym 'c column = "(incident \<Rightarrow> 'c) \<times> 'c list option"

text \<open>
  A table keyed by the grouping columns: the names of the other columns, and one entry
  per row with the key and the row's values in column order.
\<close>

record 'k table =
  columns :: "string list"
  body :: "('k \<times> fval list) list"

type_synonym 'c gkey = "string \<times> 'c option"

section \<open>The pandas operations the metric functions use\<close>

text \<open>\<open>drop_duplicates(subset=...)\<close> keeps the first row of every key, in order.\<close>

fun drop_duplicates :: "('r \<Rightarrow> 'a) \<Rightarrow> 'r list \<Rightarrow> 'r list" where
  "drop_duplicates key [] = []"
| "drop_duplicates key (r # rs) =
     r # drop_duplicates key (filter (\<lambda>r'. key r' \<noteq> key r) rs)"

text \<open>
  The values a grouper contributes to the result index: its categories when it is
  categorical, the sorted distinct values of the grouped rows otherwise.
\<close>

definition levels :: "('a::linorder) list option \<Rightarrow> 'a list \<Rightarrow> 'a list" where
  "levels cats observed = (case cats of None \<Rightarrow> sort (remdups observed) | Some cs \<Rightarrow> cs)"

text \<open>
  The result index of \<open>groupby(agg_cols, observed=False)\<close> over the rows \<open>rs\<close>, with
  \<open>agg_cols = ["state_code"]\<close> or \<open>["state_code", column]\<close>: sorted observed keys when no
  grouper is categorical, the Cartesian product of the groupers' levels as soon as one is.
\<close>

definition group_keys ::
  "string list option \<Rightarrow> ('c::linorder) column option \<Rightarrow> incident list \<Rightarrow> 'c gkey list" where
  "group_keys scats column rs =
     (case column of
        None \<Rightarrow> map (\<lambda>s. (s, None)) (levels scats (map state_code rs))
      | Some (sel, ccats) \<Rightarrow>
          (if scats = None \<and> ccats = None
           then map (\<lambda>(s, c). (s, Some c)) (sort (remdups (map (\<lambda>r. (state_code r, sel r)) rs)))
           else concat (map (\<lambda>s. map (\<lambda>c. (s, Some c)) (levels ccats (map sel rs)))
                            (levels scats (map state_code rs)))))"

text \<open>The key of a row under \<open>agg_cols\<close>, and the rows of one group.\<close>

definition row_key :: "'c column option \<Rightarrow> incident \<Rightarrow> 'c gkey" where
  "row_key column r =
     (case column of None \<Rightarrow> (state_code r, None)
      | Some (sel, ccats) \<Rightarrow> (state_code r, Some (sel r)))"

definition group_rows :: "'c column option \<Rightarrow> incident list \<Rightarrow> 'c gkey \<Rightarrow> incident list" where
  "group_rows column rs k = filter (\<lambda>r. row_key column r = k) rs"

text \<open>The aggregations \<open>count\<close> and \<open>sum\<close> of one group; the sum of no rows is 0.\<close>

definition agg_count :: "'c column option \<Rightarrow> incident list \<Rightarrow> 'c gkey \<Rightarrow> nat" where
  "agg_count column rs k = length (group_rows column rs k)"

definition agg_sum ::
  "(incident \<Rightarrow> real) \<Rightarrow> 'c column option \<Rightarrow> incident list \<Rightarrow> 'c gkey \<Rightarrow> real" where
  "agg_sum f column rs k = sum_list (map f (group_rows column rs k))"

text \<open>
  \<open>left.merge(right, on=agg_cols, how="left")\<close> for a right table with one value per
  row: every left row, in order, once per matching right row, and once with \<open>NaN\<close> when no
  right row has its key.
\<close>

definition merge_left :: "('k \<times> 'a) list \<Rightarrow> ('k \<times> fval) list \<Rightarrow> ('k \<times> 'a \<times> fval) list" where
  "merge_left left right =
     concat (map (\<lambda>(k, a).
        (case filter (\<lambda>(k', v). k' = k) right of
           [] \<Rightarrow> [(k, a, NaN)]
         | ms \<Rightarrow> map (\<lambda>(k', v). (k, a, v)) ms)) left)"

text \<open>\<open>np.where(cond, a, b)\<close> on one cell: both branches are computed, one is selected.\<close>

definition np_where :: "bool \<Rightarrow> fval \<Rightarrow> fval \<Rightarrow> fval" where
  "np_where c a b = (if c then a else b)"

section \<open>Metric functions\<close>

definition company_key :: "incident \<Rightarrow> string \<times> string" where
  "company_key r = (state_code r, company_name r)"

text \<open>The frame \<open>deduplicated\<close> of the metric functions.\<close>

definition deduplicated :: "dataframe \<Rightarrow> incident list" where
  "deduplicated df = drop_duplicates company_key (rows df)"

text \<open>The local tables \<open>injury_data\<close> and \<open>company_data\<close> of \<open>compute_agg_incident_rate\<close>.\<close>

definition injury_data :: "dataframe \<Rightarrow> ('c::linorder) column option \<Rightarrow> ('c gkey \<times> nat) list" where
  "injury_data df column =
     map (\<lambda>k. (k, agg_count column (rows df) k)) (group_keys (state_cats df) column (rows df))"

definition company_data ::
  "(incident \<Rightarrow> real) \<Rightarrow> dataframe \<Rightarrow> ('c::linorder) column option \<Rightarrow> ('c gkey \<times> fval) list" where
  "company_data f df column =
     map (\<lambda>k. (k, Fin (agg_sum f column (deduplicated df) k)))
         (group_keys (state_cats df) column (deduplicated df))"

definition compute_agg_incident_rate ::
  "dataframe \<Rightarrow> ('c::linorder) column option \<Rightarrow> 'c gkey table" where
  "compute_agg_incident_rate df column =
     (let temp = merge_left (injury_data df column) (company_data total_hours_worked df column)
      in \<lparr>columns = [''incident_rate''],
          body = map (\<lambda>(k, n, h).
            (k, [np_where (fgt h (Fin 0)) (fmul (fdiv (of_count n) h) (Fin 100000)) (Fin 0)]))
            temp\<rparr>)"

text \<open>
  \<open>compute_agg_fatality_rate\<close>, \<open>compute_agg_lost_workday_rate\<close>: one
  \<open>groupby(...).agg(...)\<close> over the injury rows, guarded by \<open>case_number > 0\<close>.
\<close>

definition compute_agg_fatality_rate ::
  "dataframe \<Rightarrow> ('c::linorder) column option \<Rightarrow> 'c gkey table" where
  "compute_agg_fatality_rate df column =
     \<lparr>columns = [''fatality_rate''],
      body = map (\<lambda>k.
        (let d = Fin (agg_sum death column (rows df) k);
             n = of_count (agg_count column (rows df) k)
         in (k, [np_where (fgt n (Fin 0)) (fmul (fdiv d n) (Fin 10000)) (Fin 0)])))
        (group_keys (state_cats df) column (rows df))\<rparr>"

definition compute_agg_lost_workday_rate ::
  "dataframe \<Rightarrow> ('c::linorder) column option \<Rightarrow> 'c gkey table" where
  "compute_agg_lost_workday_rate df column =
     \<lparr>columns = [''lost_workday_rate''],
      body = map (\<lambda>k.
        (let total_lost_days = fadd (Fin (agg_sum dafw_num_away column (rows df) k))
                                    (Fin (agg_sum djtr_num_tr column (rows df) k));
             n = of_count (agg_count column (rows df) k)
         in (k, [np_where (fgt n (Fin 0)) (fdiv total_lost_days n) (Fin 0)])))
        (group_keys (state_cats df) column (rows df))\<rparr>"

text \<open>
  \<open>compute_workforce_exposure\<close>: as the incident rate, with the employees of the
  deduplicated companies, but guarded by \<open>case_number > 0\<close>.
\<close>

definition compute_workforce_exposure ::
  "dataframe \<Rightarrow> ('c::linorder) column option \<Rightarrow> 'c gkey table" where
  "compute_workforce_exposure df column =
     (let temp = merge_left (injury_data df column)
                   (company_data annual_average_employees df column)
      in \<lparr>columns = [''workforce_exposure''],
          body = map (\<lambda>(k, n, e).
            (k, [np_where (fgt (of_count n) (Fin 0)) (fmul (fdiv (of_count n) e) (Fin 100)) (Fin 0)]))
            temp\<rparr>)"

text \<open>
  \<open>stats.merge(other, on=agg_cols, how="left")\<close> on keyed tables: the columns of both,
  every left row once per matching right row, and with \<open>NaN\<close> in the right columns when
  there is none.
\<close>

definition merge_tables :: "'k table \<Rightarrow> 'k table \<Rightarrow> 'k table" where
  "merge_tables l r =
     \<lparr>columns = columns l @ columns r,
      body = concat (map (\<lambda>(k, vs).
        (case filter (\<lambda>(k', ws). k' = k) (body r) of
           [] \<Rightarrow> [(k, vs @ replicate (length (columns r)) NaN)]
         | ms \<Rightarrow> map (\<lambda>(k', ws). (k, vs @ ws)) ms)) (body l))\<rparr>"

text \<open>The cell of a row in the column \<open>name\<close>; a cell the row does not have is \<open>NaN\<close>.\<close>

definition cell :: "string list \<Rightarrow> fval list \<Rightarrow> string \<Rightarrow> fval" where
  "cell cols vs name = (case map_of (zip cols vs) name of Some v \<Rightarrow> v | None \<Rightarrow> NaN)"

text \<open>
  \<open>compute_agg_safety_score\<close>. The three merges build exactly the columns that the
  weighted sum reads, so the column lookups cannot fail. The weights are the decimal
  constants of the source.
\<close>

definition compute_agg_safety_score ::
  "dataframe \<Rightarrow> ('c::linorder) column option \<Rightarrow> 'c gkey table" where
  "compute_agg_safety_score df column =
     (let stats = merge_tables (merge_tables (merge_tables
                    (compute_agg_incident_rate df column)
                    (compute_agg_fatality_rate df column))
                    (compute_agg_lost_workday_rate df column))
                    (compute_workforce_exposure df column)
      in \<lparr>columns = columns stats @ [''danger_score''],
          body = map (\<lambda>(k, vs).
            (k, vs @ [fadd (fadd (fadd
                  (fmul (Fin (238 / 100)) (cell (columns stats) vs ''incident_rate''))
                  (fmul (Fin (333 / 100)) (cell (columns stats) vs ''fatality_rate'')))
                  (fmul (Fin (37 / 100)) (cell (columns stats) vs ''lost_workday_rate'')))
                  (fmul (Fin (14 / 10)) (cell (columns stats) vs ''workforce_exposure''))]))
            (body stats)\<rparr>)"

text \<open>The dispatch table \<open>kpi_name_function_mapping\<close>; a missing key is \<open>None\<close>.\<close>

definition kpi_name_function_mapping ::
  "string \<Rightarrow> (dataframe \<Rightarrow> ('c::linorder) column option \<Rightarrow> 'c gkey table) option" where
  "kpi_name_function_mapping kpi =
     (if kpi = ''incident_rate'' then Some compute_agg_incident_rate
      else if kpi = ''fatality_rate'' then Some compute_agg_fatality_rate
      else if kpi = ''lost_workday_rate'' then Some compute_agg_lost_workday_rate
      else if kpi = ''workforce_exposure'' then Some compute_workforce_exposure
      else if kpi = ''danger_score'' then Some compute_agg_safety_score
      else None)"

definition kpi_names :: "string list" where
  "kpi_names = [''incident_rate'', ''fatality_rate'', ''lost_workday_rate'',
                ''workforce_exposure'', ''danger_score'']"

section \<open>Process-wide state and its initialisation\<close>

text \<open>The exceptions the modelled code can raise.\<close>

datatype error = IndexError | KeyError | ValueError | AttributeError | TypeError
  | SyntaxError | PreventUpdate

text \<open>
  A column of a table as a series, and the reductions \<open>min()\<close>, \<open>max()\<close> and
  \<open>mean()\<close> of a series, which skip \<open>NaN\<close> and are \<open>NaN\<close> when nothing is left.
\<close>

definition column_values :: "'k table \<Rightarrow> string \<Rightarrow> fval list" where
  "column_values t name = map (\<lambda>(k, vs). cell (columns t) vs name) (body t)"

definition skipna :: "fval list \<Rightarrow> fval list" where
  "skipna xs = filter (\<lambda>v. v \<noteq> NaN) xs"

definition series_min :: "fval list \<Rightarrow> fval" where
  "series_min xs =
     (case skipna xs of [] \<Rightarrow> NaN | y # ys \<Rightarrow> fold (\<lambda>a m. if fgt m a then a else m) ys y)"

definition series_max :: "fval list \<Rightarrow> fval" where
  "series_max xs =
     (case skipna xs of [] \<Rightarrow> NaN | y # ys \<Rightarrow> fold (\<lambda>a m. if fgt a m then a else m) ys y)"

definition series_mean :: "fval list \<Rightarrow> fval" where
  "series_mean xs =
     (case skipna xs of [] \<Rightarrow> NaN
      | y # ys \<Rightarrow> fdiv (fold (\<lambda>a acc. fadd acc a) (y # ys) (Fin 0)) (of_count (length (y # ys))))"

text \<open>
  The module-level names of \<^verbatim>\<open>src/data.py\<close>: the base dataset \<open>data\<close>, the
  precomputed table \<open>region_safety_score\<close> and the three dictionaries of global
  statistics, with the counter that gives every newly created frame object its identity.
\<close>

record store =
  next_oid :: nat
  data :: frame_obj
  region_safety_score :: "unit gkey table"
  min_metric_values :: "(string \<times> fval) list"
  max_metric_values :: "(string \<times> fval) list"
  mean_metric_values :: "(string \<times> fval) list"

text \<open>
  What the module does when it is loaded, for the dataset \<open>d\<close> read from the parquet
  file: the score table of the whole dataset, and one loop over the keys of the dispatch
  table for the statistics.
\<close>

definition init_store :: "dataframe \<Rightarrow> store" where
  "init_store d =
     (let rss = compute_agg_safety_score d None
      in \<lparr>next_oid = 1, data = (0, d), region_safety_score = rss,
          min_metric_values = map (\<lambda>metric. (metric, series_min (column_values rss metric))) kpi_names,
          max_metric_values = map (\<lambda>metric. (metric, series_max (column_values rss metric))) kpi_names,
          mean_metric_values = map (\<lambda>metric. (metric, series_mean (column_values rss metric))) kpi_names\<rparr>)"

section \<open>Filter engine\<close>

text \<open>
  \<open>filter_data\<close>. The two date arguments are what \<open>datetime.fromisoformat\<close> makes of
  the strings: \<open>None\<close> when it raises \<open>ValueError\<close>. The minimum of an empty date column
  is \<open>NaT\<close>, which equals no date. Returning \<open>df\<close> returns the object that was passed;
  a selection creates a new object.
\<close>

definition filter_data ::
  "store \<Rightarrow> frame_obj \<Rightarrow> int option \<Rightarrow> int option \<Rightarrow> string list
     \<Rightarrow> (error + frame_obj) \<times> store" where
  "filter_data st df start_date end_date filter_incident_types =
     (case start_date of None \<Rightarrow> (Inl ValueError, st) | Some start \<Rightarrow>
      case end_date of None \<Rightarrow> (Inl ValueError, st) | Some end_d \<Rightarrow>
        (let use_precomputed =
               (case map date_of_incident (rows (snd df)) of [] \<Rightarrow> False
                | d # ds \<Rightarrow> start = fold min ds d \<and> end_d = fold max ds d)
         in if use_precomputed \<and> filter_incident_types = [] then (Inr df, st)
            else
              (let filtered_data = filter (\<lambda>r. start \<le> date_of_incident r \<and> date_of_incident r \<le> end_d)
                                     (rows (snd df));
                   filtered_data' = (if filter_incident_types \<noteq> []
                      then filter (\<lambda>r. type_of_incident r \<in> set filter_incident_types) filtered_data
                      else filtered_data)
               in (Inr (next_oid st, (snd df)\<lparr>rows := filtered_data'\<rparr>),
                   st\<lparr>next_oid := Suc (next_oid st)\<rparr>))))"

section \<open>Radar preparer\<close>

text \<open>\<open>frame[name] = value\<close> with a scalar: overwrite the column, or append it.\<close>

definition set_column :: "string \<Rightarrow> fval \<Rightarrow> 'k table \<Rightarrow> 'k table" where
  "set_column name v t =
     (if name \<in> set (columns t)
      then \<lparr>columns = columns t,
            body = map (\<lambda>(k, vs). (k, map (\<lambda>(n, x). if n = name then v else x) (zip (columns t) vs)))
                       (body t)\<rparr>
      else \<lparr>columns = columns t @ [name], body = map (\<lambda>(k, vs). (k, vs @ [v])) (body t)\<rparr>)"

text \<open>
  \<open>prepare_mean_radar_data\<close> changes the frame it is given and returns it: the result
  is the frame after the loop. The caller decides which object that frame is.
\<close>

definition prepare_mean_radar_data :: "'k table \<Rightarrow> 'k table" where
  "prepare_mean_radar_data radar_region_safety_score =
     (let mean_values = map (\<lambda>col. (col, series_mean (column_values radar_region_safety_score col)))
                            (columns radar_region_safety_score)
      in fold (\<lambda>(col, m) t. set_column (''mean_'' @ col) m t) mean_values radar_region_safety_score)"

text \<open>
  The scaling expression that \<open>prepare_radar_data\<close> and \<open>calculate_mean_values\<close> both
  write out, and the list comprehension around it with its two dictionary lookups.
\<close>

definition scale_value :: "fval \<Rightarrow> fval \<Rightarrow> fval \<Rightarrow> fval" where
  "scale_value v mn mx = (if fgt mx mn then fdiv (fsub v mn) (fsub mx mn) else Fin 0)"

fun scale_all ::
  "(string \<times> fval) list \<Rightarrow> (string \<times> fval) list \<Rightarrow> (string \<times> fval) list \<Rightarrow> error + fval list" where
  "scale_all mins maxs [] = Inr []"
| "scale_all mins maxs ((metric, v) # rest) =
     (case (map_of maxs metric, map_of mins metric) of
        (Some mx, Some mn) \<Rightarrow>
          (case scale_all mins maxs rest of
             Inl e \<Rightarrow> Inl e
           | Inr ys \<Rightarrow> Inr (scale_value v mn mx # ys))
      | _ \<Rightarrow> Inl KeyError)"

definition calculate_mean_values ::
  "(string \<times> fval) list \<Rightarrow> (string \<times> fval) list \<Rightarrow> string list \<Rightarrow> fval list
     \<Rightarrow> error + fval list" where
  "calculate_mean_values mins maxs metrics mean_values = scale_all mins maxs (zip metrics mean_values)"

record radar_row =
  kpi :: string
  rvalue :: fval
  scaled_value :: fval
  mean_value :: fval
  scaled_mean_value :: fval

text \<open>
  \<open>prepare_radar_data\<close>, statement by statement, in two parts. The first part is the
  choice of the table and the call of \<open>prepare_mean_radar_data\<close>: when \<open>df is data\<close>
  the local name \<open>radar_region_safety_score\<close> is the global table itself, so what
  \<open>prepare_mean_radar_data\<close> does to it is done to the global. The second part,
  \<open>radar_rows\<close>, is the rest of the function body, which only reads. There
  \<open>squeeze()\<close> yields a series only when exactly one row was selected; otherwise it
  yields a frame, which has no \<open>tolist\<close>. \<open>.iloc[0]\<close> needs a first row. An
  exception leaves the store as the first part made it.
\<close>

definition radar_rows ::
  "(string \<times> fval) list \<Rightarrow> (string \<times> fval) list \<Rightarrow> 'k gkey table \<Rightarrow> string
     \<Rightarrow> error + radar_row list" where
  "radar_rows mins maxs t state =
     (let metrics = kpi_names;
          selected = filter (\<lambda>(k, vs). fst k = state) (body t)
      in if \<not> list_all (\<lambda>m. m \<in> set (columns t)) metrics then Inl KeyError
         else if \<not> list_all (\<lambda>m. map_of maxs m \<noteq> None \<and> map_of mins m \<noteq> None) metrics
         then Inl KeyError
         else (case body t of
            [] \<Rightarrow> Inl IndexError
          | (k0, vs0) # _ \<Rightarrow>
              (let mean_values = map (\<lambda>m. cell (columns t) vs0 (''mean_'' @ m)) metrics
               in (case selected of
                     [(k, vs)] \<Rightarrow>
                       (let metric_values = map (cell (columns t) vs) metrics
                        in (case scale_all mins maxs (zip metrics metric_values) of
                              Inl e \<Rightarrow> Inl e
                            | Inr scaled_values \<Rightarrow>
                               (case calculate_mean_values mins maxs metrics mean_values of
                                  Inl e \<Rightarrow> Inl e
                                | Inr scaled_mean_values \<Rightarrow>
                                    Inr (map (\<lambda>(m, v, sv, mv, smv).
                                        \<lparr>kpi = m, rvalue = v, scaled_value = sv,
                                         mean_value = mv, scaled_mean_value = smv\<rparr>)
                                      (zip metrics (zip metric_values (zip scaled_values
                                         (zip mean_values scaled_mean_values))))))))
                   | _ \<Rightarrow> Inl AttributeError))))"

definition prepare_radar_data ::
  "store \<Rightarrow> frame_obj \<Rightarrow> string \<Rightarrow> (error + radar_row list) \<times> store" where
  "prepare_radar_data st df state =
     (let is_data = (fst df = fst (data st));
          t = prepare_mean_radar_data
                (if is_data then region_safety_score st else compute_agg_safety_score (snd df) None);
          st' = (if is_data then st\<lparr>region_safety_score := t\<rparr> else st)
      in (radar_rows (min_metric_values st') (max_metric_values st') t state, st'))"

section \<open>State, treemap, scatter and stacked-bar preparers\<close>

text \<open>The aggregation \<open>mean\<close> of one group; the mean of no rows is \<open>NaN\<close>.\<close>

definition agg_mean ::
  "(incident \<Rightarrow> real) \<Rightarrow> 'c column option \<Rightarrow> incident list \<Rightarrow> 'c gkey \<Rightarrow> fval" where
  "agg_mean f column rs k =
     (case group_rows column rs k of [] \<Rightarrow> NaN
      | x # xs \<Rightarrow> Fin (sum_list (map f (x # xs)) / real (length (x # xs))))"

text \<open>\<open>pd.merge(left, right, on="state_code", how="inner")\<close>.\<close>

definition merge_inner :: "('k \<times> 'a) list \<Rightarrow> ('k \<times> 'b) list \<Rightarrow> ('k \<times> 'a \<times> 'b) list" where
  "merge_inner left right =
     concat (map (\<lambda>(k, a). map (\<lambda>(k', b). (k, a, b)) (filter (\<lambda>(k', b). k' = k) right)) left)"

record state_row =
  annual_average_employees_median :: fval
  annual_average_employees_sum :: fval
  total_hours_worked_mean :: fval
  dafw_num_away_mean :: fval
  djtr_num_tr_mean :: fval
  death_mean :: fval
  case_number_count :: nat
  injury_density :: fval

text \<open>
  \<open>prepare_state_data\<close>: the aggregated columns of every state, then the columns of the
  KPI table joined on the state. The result is the names of the KPI columns and the rows.
\<close>

definition prepare_state_data ::
  "dataframe \<Rightarrow> string \<Rightarrow> error + string list \<times> (unit gkey \<times> state_row \<times> fval list) list" where
  "prepare_state_data df kpi_name =
     (let dd = deduplicated df;
          company_rows = map (\<lambda>k. (k, (agg_mean annual_average_employees None dd k,
                                         Fin (agg_sum annual_average_employees None dd k),
                                         agg_mean total_hours_worked None dd k)))
                             (group_keys (state_cats df) None dd);
          injury_rows = map (\<lambda>k. (k, (agg_mean dafw_num_away None (rows df) k,
                                        agg_mean djtr_num_tr None (rows df) k,
                                        agg_mean death None (rows df) k,
                                        agg_count None (rows df) k)))
                            (group_keys (state_cats df) None (rows df));
          aggregated_data = map (\<lambda>(k, (em, es, hm), (da, dj, de, n)).
              (k, \<lparr>annual_average_employees_median = em, annual_average_employees_sum = es,
                   total_hours_worked_mean = hm, dafw_num_away_mean = da, djtr_num_tr_mean = dj,
                   death_mean = de, case_number_count = n,
                   injury_density = np_where (fgt em (Fin 0)) (fdiv (of_count n) es) (Fin 0)\<rparr>))
              (merge_inner company_rows injury_rows)
      in (case kpi_name_function_mapping kpi_name of
            None \<Rightarrow> Inl KeyError
          | Some metric_function \<Rightarrow>
              (let kpi_table = metric_function df None
               in Inr (columns kpi_table, merge_inner aggregated_data (body kpi_table)))))"

text \<open>Evaluating a function on every element of a list, stopping at the first exception.\<close>

fun map_err :: "('a \<Rightarrow> error + 'b) \<Rightarrow> 'a list \<Rightarrow> error + 'b list" where
  "map_err f [] = Inr []"
| "map_err f (x # xs) =
     (case f x of Inl e \<Rightarrow> Inl e
      | Inr y \<Rightarrow> (case map_err f xs of Inl e \<Rightarrow> Inl e | Inr ys \<Rightarrow> Inr (y # ys)))"

text \<open>
  \<open>frame.iloc[0, -1]\<close> of a keyed table: the last cell of the first row, which is the
  key column when the table has no other column.
\<close>

datatype 'k anycell = KeyCell 'k | NumCell fval

definition iloc_first_last :: "'k table \<Rightarrow> error + 'k anycell" where
  "iloc_first_last t =
     (case body t of [] \<Rightarrow> Inl IndexError
      | (k, vs) # _ \<Rightarrow> (case rev vs of [] \<Rightarrow> Inr (KeyCell k) | v # _ \<Rightarrow> Inr (NumCell v)))"

text \<open>\<open>table.query("state_code == '<state>'")\<close> on a keyed table.\<close>

definition query_state :: "string \<Rightarrow> 'c gkey table \<Rightarrow> 'c gkey table" where
  "query_state state t = t\<lparr>body := filter (\<lambda>(k, vs). fst k = state) (body t)\<rparr>"

text \<open>
  The query string of the treemap preparer is built by putting the state code between
  quotes. The model reads it as the comparison with the state code, which is what it
  denotes for a code in plain text: printable ASCII without quote and backslash.
\<close>

definition plain_code :: "string \<Rightarrow> bool" where
  "plain_code s = list_all (\<lambda>c. 32 \<le> (of_char c :: nat) \<and> (of_char c :: nat) \<le> 126
                              \<and> (of_char c :: nat) \<noteq> 39 \<and> (of_char c :: nat) \<noteq> 92) s"

record treemap_row =
  tm_soc_description_1 :: string
  tm_soc_description_2 :: string
  tm_count :: nat
  tm_metric :: "unit gkey anycell"

text \<open>
  \<open>prepare_treemap_data\<close>: the groups of \<open>groupby(..., observed=True)\<close> are the observed
  pairs, each with its rows; the metric of a group is recomputed from the rows of the
  group. \<open>treemap_kept\<close> is the frame that is grouped, \<open>treemap_keys\<close> its groups and
  \<open>treemap_group\<close> the rows of one group; \<open>treemap_metric\<close> is the lambda of the
  aggregation.
\<close>

definition treemap_kept :: "dataframe \<Rightarrow> string \<Rightarrow> incident list" where
  "treemap_kept df state =
     filter (\<lambda>r. soc_description_1 r \<noteq> ''Insufficient info''
                 \<and> soc_description_1 r \<noteq> ''Not assigned'')
            (filter (\<lambda>r. state_code r = state) (rows df))"

definition treemap_keys :: "dataframe \<Rightarrow> string \<Rightarrow> (string \<times> string) list" where
  "treemap_keys df state =
     sort (remdups (map (\<lambda>r. (soc_description_1 r, soc_description_2 r)) (treemap_kept df state)))"

definition treemap_group :: "dataframe \<Rightarrow> string \<Rightarrow> string \<times> string \<Rightarrow> dataframe" where
  "treemap_group df state k =
     df\<lparr>rows := filter (\<lambda>r. (soc_description_1 r, soc_description_2 r) = k) (treemap_kept df state)\<rparr>"

definition treemap_metric ::
  "(dataframe \<Rightarrow> unit column option \<Rightarrow> unit gkey table) \<Rightarrow> dataframe \<Rightarrow> string
     \<Rightarrow> string \<times> string \<Rightarrow> error + unit gkey anycell" where
  "treemap_metric metric_function df state k =
     iloc_first_last (query_state state (metric_function (treemap_group df state k) None))"

definition prepare_treemap_data :: "dataframe \<Rightarrow> string \<Rightarrow> string \<Rightarrow> error + treemap_row list" where
  "prepare_treemap_data df state kpi_name =
     (case kpi_name_function_mapping kpi_name of
        None \<Rightarrow> Inl KeyError
      | Some metric_function \<Rightarrow>
          map_err (\<lambda>k.
            (case treemap_metric metric_function df state k of
               Inl e \<Rightarrow> Inl e
             | Inr m \<Rightarrow> Inr \<lparr>tm_soc_description_1 = fst k, tm_soc_description_2 = snd k,
                             tm_count = length (rows (treemap_group df state k)), tm_metric = m\<rparr>))
            (treemap_keys df state))"

text \<open>
  \<open>x.mode().iloc[0]\<close>: the least of the most frequent values; \<open>IndexError\<close> when there
  is no value.
\<close>

definition mode_first :: "string list \<Rightarrow> error + string" where
  "mode_first xs =
     (let vals = sort (remdups xs);
          best = fold max (map (count_list xs) vals) 0
      in (case filter (\<lambda>y. count_list xs y = best) vals of
            [] \<Rightarrow> Inl IndexError
          | m # _ \<Rightarrow> Inr m))"

text \<open>\<open>strftime("%H:%M")\<close> of a timestamp in seconds.\<close>

definition two_digits :: "nat \<Rightarrow> string" where
  "two_digits n = [char_of (48 + n div 10 mod 10), char_of (48 + n mod 10)]"

definition strftime_HM :: "int \<Rightarrow> string" where
  "strftime_HM t = two_digits (nat (t div 3600 mod 24)) @ '':'' @ two_digits (nat (t div 60 mod 60))"

record scatter_row =
  sc_naics_description_5 :: string
  sc_case_number :: nat
  sc_time_started_work :: int
  sc_time_of_incident :: int
  sc_establishment_type :: string
  sc_time_started_work_str :: string
  sc_time_of_incident_str :: string

text \<open>
  \<open>prepare_scatter_plot\<close>. The mean of a group's timestamps is taken in whole seconds.
\<close>

definition prepare_scatter_plot :: "dataframe \<Rightarrow> string \<Rightarrow> error + scatter_row list" where
  "prepare_scatter_plot df state =
     (let sub = filter (\<lambda>r. state_code r = state) (rows df)
      in map_err (\<lambda>k.
           (let grp = filter (\<lambda>r. naics_description_5 r = k) sub;
                started = sum_list (map time_started_work grp) div int (length grp);
                incident = sum_list (map time_of_incident grp) div int (length grp)
            in (case mode_first (map establishment_type grp) of
                  Inl e \<Rightarrow> Inl e
                | Inr m \<Rightarrow> Inr \<lparr>sc_naics_description_5 = k, sc_case_number = length grp,
                                sc_time_started_work = started, sc_time_of_incident = incident,
                                sc_establishment_type = m,
                                sc_time_started_work_str = strftime_HM started,
                                sc_time_of_incident_str = strftime_HM incident\<rparr>)))
           (sort (remdups (map naics_description_5 sub))))"

text \<open>
  \<open>prepare_stacked_bar_chart\<close>: the counts of the observed (outcome, establishment type)
  pairs, pivoted with \<open>NaN\<close> for a pair that has no count, \<open>fillna(0)\<close>, and every row
  divided by its sum. The key of a row is the incident outcome, the columns are the
  establishment types. \<open>bar_filtered\<close> is the frame \<open>filtered_data\<close> of the function.
\<close>

definition fsum :: "fval list \<Rightarrow> fval" where
  "fsum xs = fold (\<lambda>a acc. fadd acc a) (skipna xs) (Fin 0)"

definition fillna :: "fval \<Rightarrow> fval \<Rightarrow> fval" where
  "fillna d v = (if v = NaN then d else v)"

definition bar_filtered :: "dataframe \<Rightarrow> string \<Rightarrow> incident list" where
  "bar_filtered df state =
     filter (\<lambda>r. state_code r = state \<and> establishment_type r \<noteq> ''Not Stated''
                 \<and> establishment_type r \<noteq> ''Invalid Entry'') (rows df)"

definition prepare_stacked_bar_chart :: "dataframe \<Rightarrow> string \<Rightarrow> string table" where
  "prepare_stacked_bar_chart df state =
     (let filtered_data = bar_filtered df state;
          pair = (\<lambda>r. (incident_outcome r, establishment_type r));
          aggregated_data = map (\<lambda>k. (k, length (filter (\<lambda>r. pair r = k) filtered_data)))
                                (sort (remdups (map pair filtered_data)));
          outcomes = sort (remdups (map (\<lambda>(k, n). fst k) aggregated_data));
          types = sort (remdups (map (\<lambda>(k, n). snd k) aggregated_data));
          pivot_data = map (\<lambda>oc. (oc, map (\<lambda>e.
                fillna (Fin 0) (case map_of aggregated_data (oc, e) of
                                  None \<Rightarrow> NaN | Some n \<Rightarrow> of_count n)) types)) outcomes
      in \<lparr>columns = types,
          body = map (\<lambda>(oc, vs). (oc, map (\<lambda>v. fdiv v (fsum vs)) vs)) pivot_data\<rparr>)"

section \<open>Click handlers of the coordinator\<close>

text \<open>
  The payload of a click event is JSON: \<open>None\<close> when nothing was clicked, otherwise a
  dictionary. Subscripting follows Python: \<open>x[0]\<close> of an empty list raises
  \<open>IndexError\<close>, \<open>x["k"]\<close> of a dictionary without the key raises \<open>KeyError\<close>, and
  a value that cannot be subscripted that way raises \<open>TypeError\<close>.
\<close>

datatype pyval = PNone | PStr string | PNum real | PList "pyval list"
  | PDict "(string \<times> pyval) list"

type_synonym click = "(string \<times> pyval) list option"

fun index0 :: "pyval \<Rightarrow> error + pyval" where
  "index0 (PList []) = Inl IndexError"
| "index0 (PList (x # xs)) = Inr x"
| "index0 (PStr []) = Inl IndexError"
| "index0 (PStr (c # cs)) = Inr (PStr [c])"
| "index0 (PDict d) = Inl KeyError"
| "index0 PNone = Inl TypeError"
| "index0 (PNum x) = Inl TypeError"

fun getitem :: "pyval \<Rightarrow> string \<Rightarrow> error + pyval" where
  "getitem (PDict d) k = (case map_of d k of None \<Rightarrow> Inl KeyError | Some v \<Rightarrow> Inr v)"
| "getitem (PList xs) k = Inl TypeError"
| "getitem (PStr s) k = Inl TypeError"
| "getitem PNone k = Inl TypeError"
| "getitem (PNum x) k = Inl TypeError"

text \<open>\<open>click_data["points"][0][field]\<close>.\<close>

definition first_point_field :: "(string \<times> pyval) list \<Rightarrow> string \<Rightarrow> error + pyval" where
  "first_point_field d field =
     (case getitem (PDict d) ''points'' of
        Inl e \<Rightarrow> Inl e
      | Inr ps \<Rightarrow> (case index0 ps of Inl e \<Rightarrow> Inl e | Inr p \<Rightarrow> getitem p field))"

text \<open>What a callback returns for one output: \<open>no_update\<close> or a value.\<close>

datatype 'a callback_output = NoUpdate | Value 'a

definition dropdown_options_rev :: "(string \<times> string) list" where
  "dropdown_options_rev =
     [(''Incident Rate'', ''incident_rate''), (''Fatality Rate'', ''fatality_rate''),
      (''Lost Workday Rate'', ''lost_workday_rate''),
      (''Workforce Exposure'', ''workforce_exposure''), (''Danger Score'', ''danger_score'')]"

text \<open>
  \<open>update_on_radar_click\<close>. The guard is \<open>click_data and "points" in click_data\<close>; a
  list or a dictionary as the label cannot be hashed for the lookup.
\<close>

definition update_on_radar_click :: "click \<Rightarrow> error + string callback_output" where
  "update_on_radar_click click_data =
     (case click_data of
        None \<Rightarrow> Inr NoUpdate
      | Some d \<Rightarrow>
          (if d \<noteq> [] \<and> ''points'' \<in> fst ` set d
           then (case first_point_field d ''theta'' of
                   Inl e \<Rightarrow> Inl e
                 | Inr (PStr label) \<Rightarrow>
                     Inr (case map_of dropdown_options_rev label of
                            None \<Rightarrow> NoUpdate | Some k \<Rightarrow> Value k)
                 | Inr (PList xs) \<Rightarrow> Inl TypeError
                 | Inr (PDict xs) \<Rightarrow> Inl TypeError
                 | Inr PNone \<Rightarrow> Inr NoUpdate
                 | Inr (PNum x) \<Rightarrow> Inr NoUpdate)
           else Inr NoUpdate))"

text \<open>
  \<open>update_graphs_on_barchart_click\<close>. The renderers \<open>create_treemap\<close> and
  \<open>create_scatter_plot\<close> belong to \<^verbatim>\<open>src/visualizations.py\<close>, which is not part of the
  sources: they are parameters. The memoising wrappers return what the wrapped functions
  return. The third component of the result is written to the store component
  \<open>bar-selected-data\<close>, the selection that the next click receives as \<open>selected_data\<close>.
\<close>

definition update_graphs_on_barchart_click ::
  "(treemap_row list \<Rightarrow> string \<Rightarrow> string \<Rightarrow> 'f) \<Rightarrow> (scatter_row list \<Rightarrow> string \<Rightarrow> 'g)
     \<Rightarrow> store \<Rightarrow> click \<Rightarrow> int option \<Rightarrow> int option \<Rightarrow> string list \<Rightarrow> string \<Rightarrow> string
     \<Rightarrow> pyval \<Rightarrow> (error + 'f \<times> 'g \<times> pyval) \<times> store" where
  "update_graphs_on_barchart_click create_treemap create_scatter_plot st barchart_clickData
       start_date end_date incident_types kpi_name selected_state selected_data =
     (case barchart_clickData of
        None \<Rightarrow> (Inl PreventUpdate, st)
      | Some d \<Rightarrow>
          (if d = [] then (Inl PreventUpdate, st)
           else (case filter_data st (data st) start_date end_date incident_types of
              (Inl e, st') \<Rightarrow> (Inl e, st')
            | (Inr filtered_obj, st') \<Rightarrow>
               (let selection =
                  (if ''points'' \<in> fst ` set d
                   then (case first_point_field d ''y'' of
                           Inl e \<Rightarrow> Inl e
                         | Inr clicked_outcome \<Rightarrow>
                             (if selected_data = clicked_outcome
                              then Inr (snd filtered_obj, PNone)
                              else Inr ((snd filtered_obj)\<lparr>rows :=
                                          filter (\<lambda>r. PStr (incident_outcome r) = clicked_outcome)
                                                 (rows (snd filtered_obj))\<rparr>,
                                        clicked_outcome)))
                   else Inr (snd filtered_obj, PNone))
                in (case selection of
                      Inl e \<Rightarrow> (Inl e, st')
                    | Inr (filtered_data, new_outcome) \<Rightarrow>
                        (case prepare_treemap_data filtered_data selected_state ''incident_rate'' of
                           Inl e \<Rightarrow> (Inl e, st')
                         | Inr treemap_data \<Rightarrow>
                             (case prepare_scatter_plot filtered_data selected_state of
                                Inl e \<Rightarrow> (Inl e, st')
                              | Inr scatter_plot_data \<Rightarrow>
                                  (Inr (create_treemap treemap_data ''incident_rate'' selected_state,
                                        create_scatter_plot scatter_plot_data selected_state,
                                        new_outcome), st'))))))))"

text \<open>
  What pandas guarantees of a categorical column: its categories are distinct and every
  value is one of them.
\<close>

definition wf_frame :: "dataframe \<Rightarrow> bool" where
  "wf_frame df = (case state_cats df of None \<Rightarrow> True
                  | Some cs \<Rightarrow> distinct cs \<and> list_all (\<lambda>r. state_code r \<in> set cs) (rows df))"

section \<open>The specification's reading of the incident rate\<close>

text \<open>
  The specification's formula for one state, written from its words: the count of the
  state's incident records, divided by the sum of \<open>total_hours_worked\<close> over the state's
  companies, each company taken once (with the hours of its first record), times \<open>1e5\<close>,
  and 0 when that sum is not positive.
\<close>

definition spec_companies :: "incident list \<Rightarrow> string \<Rightarrow> string set" where
  "spec_companies rs s = set (map company_name (filter (\<lambda>r. state_code r = s) rs))"



section \<open>Example data\<close>

definition example_row :: "string \<Rightarrow> string \<Rightarrow> real \<Rightarrow> real \<Rightarrow> incident" where
  "example_row s c emp hrs =
     \<lparr>state_code = s, company_name = c, date_of_incident = 0, type_of_incident = ''Fall'',
      time_started_work = 0, time_of_incident = 0, establishment_type = ''Private'',
      incident_outcome = ''Injury'', soc_description_1 = ''A'', soc_description_2 = ''B'',
      naics_description_5 = ''N'', death = 0, dafw_num_away = 0, djtr_num_tr = 0,
      case_number = 1, annual_average_employees = emp, total_hours_worked = hrs\<rparr>"

text \<open>
  The base dataset of the examples: two incidents of one company in CA, one of them a
  fatal fall, and one incident in TX; and the frame that filtering the base dataset to
  the incident type \<open>Fall\<close> leaves.
\<close>

definition example_base :: dataframe where
  "example_base =
     \<lparr>rows = [(example_row ''CA'' ''Acme'' 10 1000)\<lparr>date_of_incident := 1, death := 1\<rparr>,
              (example_row ''CA'' ''Acme'' 10 1000)\<lparr>date_of_incident := 2, type_of_incident := ''Burn''\<rparr>,
              (example_row ''TX'' ''Bolt'' 10 1000)\<lparr>date_of_incident := 3, type_of_incident := ''Burn''\<rparr>],
      state_cats = None\<rparr>"

definition example_filtered :: dataframe where
  "example_filtered =
     \<lparr>rows = [(example_row ''CA'' ''Acme'' 10 1000)\<lparr>date_of_incident := 1, death := 1\<rparr>],
      state_cats = None\<rparr>"

section \<open>Ranges of scaled values\<close>

text \<open>
  \<open>between mn v mx\<close>: three finite values with \<open>mn \<le> v \<le> mx\<close>; \<open>in_unit v\<close>: a
  finite value in \<open>[0, 1]\<close>.
\<close>

fun between :: "fval \<Rightarrow> fval \<Rightarrow> fval \<Rightarrow> bool" where
  "between (Fin a) (Fin v) (Fin b) = (a \<le> v \<and> v \<le> b)"
| "between _ _ _ = False"

fun in_unit :: "fval \<Rightarrow> bool" where
  "in_unit (Fin x) = (0 \<le> x \<and> x \<le> 1)"
| "in_unit _ = False"

text \<open>The row that the radar preparer builds for one metric.\<close>

definition radar_row_of ::
  "(string \<times> fval) list \<Rightarrow> (string \<times> fval) list \<Rightarrow> string list \<Rightarrow> fval list \<Rightarrow> fval list
     \<Rightarrow> string \<Rightarrow> radar_row" where
  "radar_row_of mins maxs cols vs vs0 m =
     \<lparr>kpi = m, rvalue = cell cols vs m,
      scaled_value = scale_value (cell cols vs m) (the (map_of mins m)) (the (map_of maxs m)),
      mean_value = cell cols vs0 (''mean_'' @ m),
      scaled_mean_value = scale_value (cell cols vs0 (''mean_'' @ m))
                            (the (map_of mins m)) (the (map_of maxs m))\<rparr>"

text \<open>The base dataset with \<open>state_code\<close> as a categorical column.\<close>

definition example_base_categorical :: dataframe where
  "example_base_categorical = example_base\<lparr>state_cats := Some [''CA'', ''TX'']\<rparr>"

text \<open>
  A company with incidents in two occupation categories, and a second company in one
  of them.
\<close>

definition example_secondary :: dataframe where
  "example_secondary =
     \<lparr>rows = [example_row ''CA'' ''Acme'' 10 1000,
              (example_row ''CA'' ''Acme'' 10 1000)\<lparr>soc_description_1 := ''Z''\<rparr>,
              (example_row ''CA'' ''Bolt'' 5 500)\<lparr>soc_description_1 := ''Z''\<rparr>],
      state_cats = None\<rparr>"

section \<open>The specification's reading of the secondary dimension\<close>

text \<open>
  With a secondary grouping column, a company's company-level fields are those of its
  first record in the state, as in the state-level reading, and the company belongs to
  the one category that this first record has.
\<close>

definition spec_first_record :: "incident list \<Rightarrow> string \<Rightarrow> string \<Rightarrow> incident option" where
  "spec_first_record rs s c = find (\<lambda>r. state_code r = s \<and> company_name r = c) rs"

definition spec_company_field ::
  "(incident \<Rightarrow> real) \<Rightarrow> incident list \<Rightarrow> string \<Rightarrow> string \<Rightarrow> real" where
  "spec_company_field f rs s c = (case spec_first_record rs s c of None \<Rightarrow> 0 | Some r \<Rightarrow> f r)"

definition spec_group_companies ::
  "incident list \<Rightarrow> (incident \<Rightarrow> 'c) \<Rightarrow> string \<Rightarrow> 'c \<Rightarrow> string set" where
  "spec_group_companies rs sel s cat =
     {c \<in> spec_companies rs s. map_option sel (spec_first_record rs s c) = Some cat}"

text \<open>
  The total of a company-level field in one group: the sum over the group's companies,
  each taken once. The number of incident records of a group, and the sum of a
  record-level field over them.
\<close>

definition spec_group_field ::
  "(incident \<Rightarrow> real) \<Rightarrow> incident list \<Rightarrow> (incident \<Rightarrow> 'c) \<Rightarrow> 'c gkey \<Rightarrow> real" where
  "spec_group_field f rs sel k =
     (case snd k of None \<Rightarrow> 0
      | Some cat \<Rightarrow> (\<Sum>c \<in> spec_group_companies rs sel (fst k) cat.
                      spec_company_field f rs (fst k) c))"

definition spec_group_count :: "incident list \<Rightarrow> (incident \<Rightarrow> 'c) \<Rightarrow> 'c gkey \<Rightarrow> nat" where
  "spec_group_count rs sel k =
     (case snd k of None \<Rightarrow> 0
      | Some cat \<Rightarrow> length (filter (\<lambda>r. state_code r = fst k \<and> sel r = cat) rs))"

definition spec_group_row_sum ::
  "(incident \<Rightarrow> real) \<Rightarrow> incident list \<Rightarrow> (incident \<Rightarrow> 'c) \<Rightarrow> 'c gkey \<Rightarrow> real" where
  "spec_group_row_sum f rs sel k =
     (case snd k of None \<Rightarrow> 0
      | Some cat \<Rightarrow> sum_list (map f (filter (\<lambda>r. state_code r = fst k \<and> sel r = cat) rs)))"

text \<open>
  The five rates of one group, written from the specification's formulas. The workforce
  exposure of a group with incident records divides by the employees of the group's
  companies; when the group has no row in the company table the merged cell is missing
  and the quotient is \<open>NaN\<close>.
\<close>

definition spec_group_incident_rate :: "incident list \<Rightarrow> (incident \<Rightarrow> 'c) \<Rightarrow> 'c gkey \<Rightarrow> fval" where
  "spec_group_incident_rate rs sel k =
     (let n = spec_group_count rs sel k;
          h = spec_group_field total_hours_worked rs sel k
      in if 0 < h then Fin (real n / h * 100000) else Fin 0)"

definition spec_group_fatality_rate :: "incident list \<Rightarrow> (incident \<Rightarrow> 'c) \<Rightarrow> 'c gkey \<Rightarrow> fval" where
  "spec_group_fatality_rate rs sel k =
     (let n = spec_group_count rs sel k
      in if 0 < n then Fin (spec_group_row_sum death rs sel k / real n * 10000) else Fin 0)"

definition spec_group_lost_workday_rate :: "incident list \<Rightarrow> (incident \<Rightarrow> 'c) \<Rightarrow> 'c gkey \<Rightarrow> fval" where
  "spec_group_lost_workday_rate rs sel k =
     (let n = spec_group_count rs sel k
      in if 0 < n
         then Fin ((spec_group_row_sum dafw_num_away rs sel k
                    + spec_group_row_sum djtr_num_tr rs sel k) / real n)
         else Fin 0)"

definition spec_group_workforce_exposure ::
  "incident list \<Rightarrow> (incident \<Rightarrow> 'c) \<Rightarrow> bool \<Rightarrow> 'c gkey \<Rightarrow> fval" where
  "spec_group_workforce_exposure rs sel in_company_table k =
     (let n = spec_group_count rs sel k;
          e = spec_group_field annual_average_employees rs sel k
      in if n = 0 then Fin 0
         else if in_company_table then fmul (fdiv (of_count n) (Fin e)) (Fin 100)
         else NaN)"

definition spec_danger_score :: "fval \<Rightarrow> fval \<Rightarrow> fval \<Rightarrow> fval \<Rightarrow> fval" where
  "spec_danger_score ir fr lw we =
     fadd (fadd (fadd (fmul (Fin (238 / 100)) ir) (fmul (Fin (333 / 100)) fr))
                (fmul (Fin (37 / 100)) lw))
          (fmul (Fin (14 / 10)) we)"

section \<open>Notions used in the statements\<close>

text \<open>What pandas guarantees of a categorical secondary column.\<close>

definition wf_column :: "'c column \<Rightarrow> dataframe \<Rightarrow> bool" where
  "wf_column column df =
     (case snd column of None \<Rightarrow> True
      | Some cs \<Rightarrow> distinct cs \<and> list_all (\<lambda>r. fst column r \<in> set cs) (rows df))"




text \<open>
  A table grouped by state alone over the states \<open>lv\<close>: it has a value column, one row
  per state in order, and every row has a cell for every column.
\<close>

definition state_shaped :: "'c gkey table \<Rightarrow> string list \<Rightarrow> bool" where
  "state_shaped t lv =
     (columns t \<noteq> [] \<and> map fst (body t) = map (\<lambda>s. (s, None)) lv
      \<and> list_all (\<lambda>(k, vs). length vs = length (columns t)) (body t))"


section \<open>Facts about the pandas operations\<close>

lemma drop_duplicates_subset: "set (drop_duplicates key rs) \<subseteq> set rs"
  by (induction key rs rule: drop_duplicates.induct) auto

lemma drop_duplicates_filter:
  "filter (\<lambda>r. key r = k) (drop_duplicates key rs) =
     (case find (\<lambda>r. key r = k) rs of None \<Rightarrow> [] | Some r \<Rightarrow> [r])"
proof (induction key rs rule: drop_duplicates.induct)
  case (1 key)
  then show ?case by simp
next
  case (2 key r rs)
  show ?case
  proof (cases "key r = k")
    case True
    have "filter (\<lambda>x. key x = k) (drop_duplicates key (filter (\<lambda>r'. key r' \<noteq> key r) rs)) = []"
      using drop_duplicates_subset[of key "filter (\<lambda>r'. key r' \<noteq> key r) rs"] True
      by (auto simp: filter_empty_conv)
    with True show ?thesis by simp
  next
    case False
    have "find (\<lambda>x. key x = k) (filter (\<lambda>r'. key r' \<noteq> key r) rs) = find (\<lambda>x. key x = k) rs"
      using False by (induction rs) auto
    with False 2 show ?thesis by simp
  qed
qed

lemma drop_duplicates_keys: "key ` set (drop_duplicates key rs) = key ` set rs"
proof (induction key rs rule: drop_duplicates.induct)
  case (1 key)
  then show ?case by simp
next
  case (2 key r rs)
  then show ?case by auto
qed

lemma drop_duplicates_distinct: "distinct (map key (drop_duplicates key rs))"
proof (induction key rs rule: drop_duplicates.induct)
  case (1 key)
  then show ?case by simp
next
  case (2 key r rs)
  have "key r \<notin> key ` set (drop_duplicates key (filter (\<lambda>r'. key r' \<noteq> key r) rs))"
    unfolding drop_duplicates_keys by auto
  with 2 show ?case by simp
qed

lemma drop_duplicates_first:
  assumes "r \<in> set (drop_duplicates key rs)"
  shows "find (\<lambda>r'. key r' = key r) rs = Some r"
proof -
  have "r \<in> set (filter (\<lambda>x. key x = key r) (drop_duplicates key rs))"
    using assms by simp
  then show ?thesis
    unfolding drop_duplicates_filter by (auto split: option.splits)
qed


lemma sort_remdups_cong: "set xs = set ys \<Longrightarrow> sort (remdups xs) = sort (remdups ys)"
  by (metis sorted_list_of_set_sort_remdups)

lemma levels_dedup:
  "levels scats (map state_code (drop_duplicates company_key rs)) = levels scats (map state_code rs)"
proof -
  have "state_code ` set (drop_duplicates company_key rs) = state_code ` set rs"
  proof -
    have "fst ` company_key ` set (drop_duplicates company_key rs) = fst ` company_key ` set rs"
      by (simp only: drop_duplicates_keys)
    then show ?thesis by (simp add: image_image company_key_def)
  qed
  then show ?thesis
    by (auto simp: levels_def intro!: sort_remdups_cong split: option.splits)
qed

lemma filter_key_singleton:
  assumes "distinct ks" "k \<in> set ks"
  shows "filter (\<lambda>(k', v). k' = k) (map (\<lambda>k. (k, g k)) ks) = [(k, g k)]"
  using assms by (induction ks) (auto simp: filter_empty_conv)

lemma merge_left_same_keys:
  assumes "distinct ks"
  shows "merge_left (map (\<lambda>k. (k, f k)) ks) (map (\<lambda>k. (k, g k)) ks) = map (\<lambda>k. (k, f k, g k)) ks"
proof -
  have "\<And>k. k \<in> set ks \<Longrightarrow>
      (case filter (\<lambda>(k', v). k' = k) (map (\<lambda>k. (k, g k)) ks) of
           [] \<Rightarrow> [(k, f k, NaN)] | ms \<Rightarrow> map (\<lambda>(k', v). (k, f k, v)) ms) = [(k, f k, g k)]"
    using assms by (simp add: filter_key_singleton)
  then have "concat (map (\<lambda>k. (case filter (\<lambda>(k', v). k' = k) (map (\<lambda>k. (k, g k)) ks) of
           [] \<Rightarrow> [(k, f k, NaN)] | ms \<Rightarrow> map (\<lambda>(k', v). (k, f k, v)) ms)) ks)
      = concat (map (\<lambda>k. [(k, f k, g k)]) ks)"
    by (intro arg_cong[where f = concat] map_cong) auto
  then show ?thesis
    by (simp add: merge_left_def comp_def)
qed



lemma levels_distinct:
  "(case scats of None \<Rightarrow> True | Some cs \<Rightarrow> distinct cs) \<Longrightarrow> distinct (levels scats obs)"
  by (auto simp: levels_def split: option.splits)

lemma wf_frame_levels: "wf_frame df \<Longrightarrow> distinct (levels (state_cats df) obs)"
  by (rule levels_distinct) (auto simp: wf_frame_def split: option.splits)

lemma group_keys_state:
  "group_keys scats None rs = map (\<lambda>s. (s, None)) (levels scats (map state_code rs))"
  by (simp add: group_keys_def)


lemma incident_rate_cell:
  "np_where (fgt (Fin h) (Fin 0)) (fmul (fdiv (of_count n) (Fin h)) (Fin 100000)) (Fin 0)
     = (if 0 < h then Fin (real n / h * 100000) else Fin 0)"
  by (simp add: np_where_def of_count_def)

section \<open>The incident rate per state\<close>




section \<open>The filter engine\<close>

text \<open>
  C4. Called with parsed dates, \<open>filter_data\<close> never raises. When the frame is not
  empty, the dates are the minimum and the maximum of its \<open>date_of_incident\<close> and the
  incident-type list is empty, it returns the object it was given, and the store is
  unchanged. Otherwise it returns a new object holding, in their order, exactly the rows
  with \<open>start_date \<le> date_of_incident \<le> end_date\<close> whose incident type is in the list
  when the list is not empty; that frame may have no rows.
\<close>

theorem filter_data_contract:
  "filter_data st df (Some start) (Some end_d) types =
     (if rows (snd df) \<noteq> []
         \<and> start = Min (set (map date_of_incident (rows (snd df))))
         \<and> end_d = Max (set (map date_of_incident (rows (snd df))))
         \<and> types = []
      then (Inr df, st)
      else (Inr (next_oid st,
                 (snd df)\<lparr>rows := filter (\<lambda>r. start \<le> date_of_incident r \<and> date_of_incident r \<le> end_d
                                          \<and> (types = [] \<or> type_of_incident r \<in> set types))
                                        (rows (snd df))\<rparr>),
            st\<lparr>next_oid := Suc (next_oid st)\<rparr>))"
proof (cases "rows (snd df)")
  case Nil
  then show ?thesis by (simp add: filter_data_def)
next
  case (Cons r rs)
  have mn: "fold min (map date_of_incident rs) (date_of_incident r)
              = Min (set (map date_of_incident (rows (snd df))))"
    unfolding Cons by (simp only: list.map Min.set_eq_fold)
  have mx: "fold max (map date_of_incident rs) (date_of_incident r)
              = Max (set (map date_of_incident (rows (snd df))))"
    unfolding Cons by (simp only: list.map Max.set_eq_fold)
  have fl: "filter (\<lambda>r. type_of_incident r \<in> set types)
              (filter (\<lambda>r. start \<le> date_of_incident r \<and> date_of_incident r \<le> end_d) xs)
            = filter (\<lambda>r. start \<le> date_of_incident r \<and> date_of_incident r \<le> end_d
                          \<and> (types = [] \<or> type_of_incident r \<in> set types)) xs"
    if "types \<noteq> []" for xs
    using that by (simp add: conj_commute conj_left_commute)
  show ?thesis
  proof (cases "types = []")
    case True
    then show ?thesis
      using mn mx Cons by (simp add: filter_data_def Let_def)
  next
    case False
    then show ?thesis
      using Cons fl[OF False] by (simp add: filter_data_def Let_def)
  qed
qed

section \<open>The radar preparer and the shared score table\<close>

lemma prepare_radar_data_store:
  "snd (prepare_radar_data st df state) =
     (if fst df = fst (data st)
      then st\<lparr>region_safety_score := prepare_mean_radar_data (region_safety_score st)\<rparr>
      else st)"
  by (simp add: prepare_radar_data_def Let_def)

lemma safety_score_columns: "columns (compute_agg_safety_score d column) = kpi_names"
  by (simp add: compute_agg_safety_score_def merge_tables_def compute_agg_incident_rate_def
      compute_agg_fatality_rate_def compute_agg_lost_workday_rate_def
      compute_workforce_exposure_def kpi_names_def Let_def)

lemma set_column_columns:
  "columns (set_column n v t) = (if n \<in> set (columns t) then columns t else columns t @ [n])"
  by (simp add: set_column_def)

lemma mean_columns_fresh:
  "columns t = kpi_names \<Longrightarrow>
     columns (prepare_mean_radar_data t) = kpi_names @ map (\<lambda>m. ''mean_'' @ m) kpi_names"
  by (simp add: prepare_mean_radar_data_def kpi_names_def set_column_columns)

text \<open>
  C7. After initialisation the precomputed table has the five metric columns. Calling
  \<open>prepare_radar_data\<close> with the base dataset object itself takes the precomputed
  table, and the store it leaves holds that table with five more columns
  \<open>mean_<metric>\<close>: for every dataset and every state the shared table is modified.
\<close>

theorem radar_fast_path_changes_score_table:
  "columns (region_safety_score (init_store d)) = kpi_names
   \<and> columns (region_safety_score
        (snd (prepare_radar_data (init_store d) (data (init_store d)) state)))
      = kpi_names @ map (\<lambda>m. ''mean_'' @ m) kpi_names"
proof -
  have c: "columns (region_safety_score (init_store d)) = kpi_names"
    by (simp add: init_store_def Let_def safety_score_columns)
  show ?thesis
    using c mean_columns_fresh[OF c] by (simp add: prepare_radar_data_store)
qed


section \<open>Scaling against the global statistics\<close>

lemma scale_value_in_unit: "between mn v mx \<Longrightarrow> in_unit (scale_value v mn mx)"
proof (cases mn; cases v; cases mx)
  fix a b c assume h: "between mn v mx" "mn = Fin a" "v = Fin b" "mx = Fin c"
  then have "a \<le> b" "b \<le> c" by auto
  then show "in_unit (scale_value v mn mx)"
    using h by (auto simp: scale_value_def fsub_def divide_le_eq)
qed auto

lemma scale_all_spec:
  "scale_all mins maxs xs = Inr ys \<Longrightarrow>
     list_all2 (\<lambda>(m, v) y. \<exists>mn mx. map_of mins m = Some mn \<and> map_of maxs m = Some mx
                              \<and> y = scale_value v mn mx) xs ys"
proof (induction xs arbitrary: ys)
  case Nil
  then show ?case by simp
next
  case (Cons x xs)
  obtain m v where x: "x = (m, v)" by (cases x)
  from Cons.prems obtain mx mn zs where
    l: "map_of maxs m = Some mx" "map_of mins m = Some mn"
    and r: "scale_all mins maxs xs = Inr zs" and ys: "ys = scale_value v mn mx # zs"
    unfolding x by (auto split: option.splits sum.splits)
  from Cons.IH[OF r] l ys x show ?case by simp
qed


lemma scale_all_map:
  "scale_all mins maxs xs = Inr ys \<Longrightarrow>
     ys = map (\<lambda>(m, v). scale_value v (the (map_of mins m)) (the (map_of maxs m))) xs"
proof (induction xs arbitrary: ys)
  case Nil
  then show ?case by simp
next
  case (Cons x xs)
  obtain m v where x: "x = (m, v)" by (cases x)
  from Cons.prems obtain mx mn zs where
    l: "map_of maxs m = Some mx" "map_of mins m = Some mn"
    and r: "scale_all mins maxs xs = Inr zs" and ys: "ys = scale_value v mn mx # zs"
    unfolding x by (auto split: option.splits sum.splits)
  from Cons.IH[OF r] l ys x show ?case by simp
qed

lemma radar_rows_Inr:
  assumes "radar_rows mins maxs t state = Inr radar"
  shows "list_all (\<lambda>m. map_of maxs m \<noteq> None \<and> map_of mins m \<noteq> None) kpi_names
         \<and> (\<exists>vs vs0. radar = map (radar_row_of mins maxs (columns t) vs vs0) kpi_names)"
proof -
  have keys: "list_all (\<lambda>m. map_of maxs m \<noteq> None \<and> map_of mins m \<noteq> None) kpi_names"
    using assms unfolding radar_rows_def Let_def by (simp split: if_splits)
  from assms obtain k0 vs0 rest where b: "body t = (k0, vs0) # rest"
    unfolding radar_rows_def Let_def by (auto split: if_splits list.splits)
  from assms b obtain k vs where sel: "filter (\<lambda>(k, vs). fst k = state) (body t) = [(k, vs)]"
    unfolding radar_rows_def Let_def by (auto split: if_splits list.splits)
  let ?mv = "map (cell (columns t) vs) kpi_names"
  let ?mean = "map (\<lambda>m. cell (columns t) vs0 (''mean_'' @ m)) kpi_names"
  from assms b sel obtain svs smvs where
    s1: "scale_all mins maxs (zip kpi_names ?mv) = Inr svs"
    and s2: "scale_all mins maxs (zip kpi_names ?mean) = Inr smvs"
    and r: "radar = map (\<lambda>(m, v, sv, mv, smv).
                \<lparr>kpi = m, rvalue = v, scaled_value = sv, mean_value = mv, scaled_mean_value = smv\<rparr>)
              (zip kpi_names (zip ?mv (zip svs (zip ?mean smvs))))"
    unfolding radar_rows_def Let_def calculate_mean_values_def
    by (auto split: if_splits sum.splits)
  have "radar = map (radar_row_of mins maxs (columns t) vs vs0) kpi_names"
    unfolding r scale_all_map[OF s1] scale_all_map[OF s2]
    by (simp add: kpi_names_def radar_row_of_def)
  with keys show ?thesis by blast
qed

text \<open>
  What the scaling does on every input. For every row of the radar table, the global
  minimum and maximum of the row's metric exist, the scaled value is
  \<open>(value - min) / (max - min)\<close> when \<open>max > min\<close> and 0 otherwise, likewise the
  scaled mean, and a scaled value lies in \<open>[0, 1]\<close> whenever the value it scales lies
  between the global minimum and maximum.
\<close>

theorem radar_scaling:
  assumes "fst (prepare_radar_data st df state) = Inr radar" and "r \<in> set radar"
  shows "\<exists>mn mx. map_of (min_metric_values st) (kpi r) = Some mn
            \<and> map_of (max_metric_values st) (kpi r) = Some mx
            \<and> scaled_value r = (if fgt mx mn then fdiv (fsub (rvalue r) mn) (fsub mx mn) else Fin 0)
            \<and> scaled_mean_value r
                = (if fgt mx mn then fdiv (fsub (mean_value r) mn) (fsub mx mn) else Fin 0)
            \<and> (between mn (rvalue r) mx \<longrightarrow> in_unit (scaled_value r))
            \<and> (between mn (mean_value r) mx \<longrightarrow> in_unit (scaled_mean_value r))"
proof -
  let ?mins = "min_metric_values st" and ?maxs = "max_metric_values st"
  obtain t :: "unit gkey table" where rr: "radar_rows ?mins ?maxs t state = Inr radar"
    using assms(1) by (auto simp: prepare_radar_data_def Let_def split: if_splits)
  from radar_rows_Inr[OF rr] obtain vs vs0 where
    keys: "list_all (\<lambda>m. map_of ?maxs m \<noteq> None \<and> map_of ?mins m \<noteq> None) kpi_names"
    and radar: "radar = map (radar_row_of ?mins ?maxs (columns t) vs vs0) kpi_names"
    by blast
  from assms(2) radar obtain m where m: "m \<in> set kpi_names"
    and r: "r = radar_row_of ?mins ?maxs (columns t) vs vs0 m"
    by auto
  from keys m obtain mn mx where l: "map_of ?mins m = Some mn" "map_of ?maxs m = Some mx"
    by (auto simp: list_all_iff)
  have k: "kpi r = m" by (simp add: r radar_row_of_def)
  have sv: "scaled_value r = scale_value (rvalue r) mn mx"
    and smv: "scaled_mean_value r = scale_value (mean_value r) mn mx"
    using l by (simp_all add: r radar_row_of_def)
  show ?thesis
    unfolding k using l sv smv scale_value_in_unit[of mn _ mx]
    by (auto simp: scale_value_def)
qed


text \<open>
  On the base dataset itself the incident rate of CA is the global maximum and scales
  to 1.
\<close>

theorem radar_scaling_witness:
  "fst (prepare_radar_data (init_store example_base) (data (init_store example_base)) ''CA'')
     = Inr [\<lparr>kpi = ''incident_rate'', rvalue = Fin 200, scaled_value = Fin 1,
             mean_value = Fin 150, scaled_mean_value = Fin (1 / 2)\<rparr>,
            \<lparr>kpi = ''fatality_rate'', rvalue = Fin 5000, scaled_value = Fin 1,
             mean_value = Fin 2500, scaled_mean_value = Fin (1 / 2)\<rparr>,
            \<lparr>kpi = ''lost_workday_rate'', rvalue = Fin 0, scaled_value = Fin 0,
             mean_value = Fin 0, scaled_mean_value = Fin 0\<rparr>,
            \<lparr>kpi = ''workforce_exposure'', rvalue = Fin 20, scaled_value = Fin 1,
             mean_value = Fin 15, scaled_mean_value = Fin (1 / 2)\<rparr>,
            \<lparr>kpi = ''danger_score'', rvalue = Fin 17154, scaled_value = Fin 1,
             mean_value = Fin 8703, scaled_mean_value = Fin (1 / 2)\<rparr>]
   \<and> (\<exists>mn mx. map_of (min_metric_values (init_store example_base)) ''incident_rate'' = Some mn
        \<and> map_of (max_metric_values (init_store example_base)) ''incident_rate'' = Some mx
        \<and> between mn (Fin 200) mx \<and> in_unit (Fin 1))"
proof -
  let ?r = "\<lparr>kpi = ''incident_rate'', rvalue = Fin 200, scaled_value = Fin 1,
             mean_value = Fin 150, scaled_mean_value = Fin (1 / 2)\<rparr>"
  have e: "fst (prepare_radar_data (init_store example_base) (data (init_store example_base)) ''CA'')
     = Inr [?r,
            \<lparr>kpi = ''fatality_rate'', rvalue = Fin 5000, scaled_value = Fin 1,
             mean_value = Fin 2500, scaled_mean_value = Fin (1 / 2)\<rparr>,
            \<lparr>kpi = ''lost_workday_rate'', rvalue = Fin 0, scaled_value = Fin 0,
             mean_value = Fin 0, scaled_mean_value = Fin 0\<rparr>,
            \<lparr>kpi = ''workforce_exposure'', rvalue = Fin 20, scaled_value = Fin 1,
             mean_value = Fin 15, scaled_mean_value = Fin (1 / 2)\<rparr>,
            \<lparr>kpi = ''danger_score'', rvalue = Fin 17154, scaled_value = Fin 1,
             mean_value = Fin 8703, scaled_mean_value = Fin (1 / 2)\<rparr>]"
    by code_simp
  have mn: "map_of (min_metric_values (init_store example_base)) ''incident_rate'' = Some (Fin 100)"
    by code_simp
  have mx: "map_of (max_metric_values (init_store example_base)) ''incident_rate'' = Some (Fin 200)"
    by code_simp
  from radar_scaling[OF e, of ?r] mn mx have "in_unit (scaled_value ?r)" by (simp add: fsub_def)
  with e mn mx show ?thesis by simp
qed

text \<open>
  C5 at its failing input. The code announces a scale from 0 to 1 (the comment
  \<open>Scale metrics to a 0-1 range\<close> in \<open>prepare_radar_data\<close>, the docstring
  \<open>Normalize mean values to a 0-1 scale\<close> of \<open>calculate_mean_values\<close>), and scales
  against the minimum and maximum of the unfiltered dataset without clamping. Filtering
  the base dataset to the incident type \<open>Fall\<close> leaves one fatal incident in CA: the
  fatality rate of CA is then 10000, twice the global maximum 5000, and the radar
  preparer returns the scaled value 2 for it, outside \<open>[0, 1]\<close>; the scaled danger
  score is \<open>33300 / 16902\<close>, also above 1.
\<close>

theorem radar_scaled_value_out_of_range:
  "filter_data (init_store example_base) (data (init_store example_base)) (Some 1) (Some 3) [''Fall'']
     = (Inr (1, example_filtered), (init_store example_base)\<lparr>next_oid := 2\<rparr>)
   \<and> map scaled_value (projr (fst (prepare_radar_data ((init_store example_base)\<lparr>next_oid := 2\<rparr>)
                                    (1, example_filtered) ''CA'')))
     = [Fin 0, Fin 2, Fin 0, Fin 0, Fin (33300 / 16902)]
   \<and> \<not> in_unit (Fin 2)"
  by code_simp

section \<open>Workforce exposure with no employees\<close>

text \<open>
  C2 at its failing inputs. A company with \<open>annual_average_employees = 0\<close> and one
  incident: the guard \<open>case_number > 0\<close> holds, the division by 0 gives \<open>inf\<close>, and
  the danger score inherits it. With a secondary column, a company whose second incident
  is in another category: that category has a case count of 1 and, after deduplication,
  no company row, so the merged denominator is missing and the result is \<open>NaN\<close>.
\<close>

theorem workforce_exposure_not_finite:
  "compute_workforce_exposure \<lparr>rows = [example_row ''CA'' ''Acme'' 0 1000], state_cats = None\<rparr>
       (None :: unit column option)
     = \<lparr>columns = [''workforce_exposure''], body = [((''CA'', None), [PInf])]\<rparr>
   \<and> compute_workforce_exposure
       \<lparr>rows = [example_row ''CA'' ''Acme'' 10 1000,
                (example_row ''CA'' ''Acme'' 10 1000)\<lparr>soc_description_1 := ''Z''\<rparr>],
        state_cats = None\<rparr>
       (Some (soc_description_1, None))
     = \<lparr>columns = [''workforce_exposure''],
        body = [((''CA'', Some ''A''), [Fin 10]), ((''CA'', Some ''Z''), [NaN])]\<rparr>
   \<and> column_values (compute_agg_safety_score
         \<lparr>rows = [example_row ''CA'' ''Acme'' 0 1000], state_cats = None\<rparr>
         (None :: unit column option)) ''danger_score'' = [PInf]"
  by code_simp


section \<open>The stacked-bar preparer\<close>







lemma sum_list_indicator:
  "distinct ks \<Longrightarrow>
     sum_list (map (\<lambda>k. if a = k then c else 0) ks) = (if a \<in> set ks then c else (0::'b::comm_monoid_add))"
  by (induction ks) auto

lemma sum_list_groups:
  fixes f :: "'r \<Rightarrow> 'b::comm_monoid_add"
  assumes "distinct ks"
  shows "sum_list (map (\<lambda>k. sum_list (map f (filter (\<lambda>r. key r = k) xs))) ks)
           = sum_list (map f (filter (\<lambda>r. key r \<in> set ks) xs))"
proof (induction xs)
  case Nil
  then show ?case by simp
next
  case (Cons x xs)
  have "sum_list (map (\<lambda>k. sum_list (map f (filter (\<lambda>r. key r = k) (x # xs)))) ks)
        = sum_list (map (\<lambda>k. (if key x = k then f x else 0)
                               + sum_list (map f (filter (\<lambda>r. key r = k) xs))) ks)"
    by (intro arg_cong[where f = sum_list] map_cong) auto
  also have "\<dots> = sum_list (map (\<lambda>k. if key x = k then f x else 0) ks)
                 + sum_list (map (\<lambda>k. sum_list (map f (filter (\<lambda>r. key r = k) xs))) ks)"
    by (simp add: sum_list_addf)
  also have "\<dots> = (if key x \<in> set ks then f x else 0)
                 + sum_list (map f (filter (\<lambda>r. key r \<in> set ks) xs))"
    using assms Cons.IH by (simp add: sum_list_indicator)
  finally show ?case by simp
qed







section \<open>The treemap preparer\<close>

lemma merge_injury_company:
  assumes "wf_frame df"
  shows "merge_left (injury_data df None) (company_data f df None)
           = map (\<lambda>k. (k, agg_count None (rows df) k,
                          Fin (agg_sum f None (drop_duplicates company_key (rows df)) k)))
                 (map (\<lambda>s. (s, None)) (levels (state_cats df) (map state_code (rows df))))"
proof -
  let ?ks = "map (\<lambda>s. (s, None)) (levels (state_cats df) (map state_code (rows df)))
               :: (string \<times> 'a option) list"
  have dk: "distinct ?ks"
    using wf_frame_levels[OF assms] by (simp add: distinct_map inj_on_def)
  have inj: "injury_data df None = map (\<lambda>k. (k, agg_count None (rows df) k)) ?ks"
    by (simp add: injury_data_def group_keys_state)
  have com: "company_data f df None
      = map (\<lambda>k. (k, Fin (agg_sum f None (drop_duplicates company_key (rows df)) k))) ?ks"
    by (simp add: company_data_def group_keys_state deduplicated_def levels_dedup)
  show ?thesis
    unfolding inj com using dk by (rule merge_left_same_keys)
qed

lemma state_shaped_incident_rate:
  "wf_frame df \<Longrightarrow> state_shaped (compute_agg_incident_rate df None)
       (levels (state_cats df) (map state_code (rows df)))"
  by (simp add: compute_agg_incident_rate_def merge_injury_company state_shaped_def
      list_all_iff comp_def Let_def)

lemma state_shaped_workforce:
  "wf_frame df \<Longrightarrow> state_shaped (compute_workforce_exposure df None)
       (levels (state_cats df) (map state_code (rows df)))"
  by (simp add: compute_workforce_exposure_def merge_injury_company state_shaped_def
      list_all_iff comp_def Let_def)

lemma state_shaped_fatality:
  "state_shaped (compute_agg_fatality_rate df None)
       (levels (state_cats df) (map state_code (rows df)))"
  by (simp add: compute_agg_fatality_rate_def group_keys_state state_shaped_def
      list_all_iff comp_def Let_def)

lemma state_shaped_lost_workday:
  "state_shaped (compute_agg_lost_workday_rate df None)
       (levels (state_cats df) (map state_code (rows df)))"
  by (simp add: compute_agg_lost_workday_rate_def group_keys_state state_shaped_def
      list_all_iff comp_def Let_def)

lemma filter_key_unique:
  assumes "distinct (map fst r)" "(k, ws) \<in> set r"
  shows "filter (\<lambda>(k', ws'). k' = k) r = [(k, ws)]"
  using assms
proof (induction r)
  case Nil
  then show ?case by simp
next
  case (Cons x r)
  show ?case
  proof (cases "x = (k, ws)")
    case True
    with Cons.prems(1) have "filter (\<lambda>(k', ws'). k' = k) r = []"
      by (auto simp: filter_empty_conv image_iff)
    with True show ?thesis by simp
  next
    case False
    with Cons.prems have m: "(k, ws) \<in> set r" and d: "distinct (map fst r)" by auto
    from Cons.prems(1) m have "fst x \<noteq> k" by (auto simp: image_iff)
    with Cons.IH[OF d m] show ?thesis by (cases x) simp
  qed
qed

lemma state_shaped_merge:
  assumes l: "state_shaped l lv" and r: "state_shaped r lv" and d: "distinct lv"
  shows "state_shaped (merge_tables l r) lv"
proof -
  have dr: "distinct (map fst (body r))"
    using r d by (simp add: state_shaped_def distinct_map inj_on_def)
  have keys: "fst ` set (body l) = fst ` set (body r)"
  proof -
    have "set (map fst (body l)) = set (map fst (body r))"
      using l r by (simp add: state_shaped_def)
    then show ?thesis by simp
  qed
  have row: "\<exists>ws. (k, ws) \<in> set (body r) \<and>
      (case filter (\<lambda>(k', ws). k' = k) (body r) of
           [] \<Rightarrow> [(k, vs @ replicate (length (columns r)) NaN)]
         | ms \<Rightarrow> map (\<lambda>(k', ws). (k, vs @ ws)) ms) = [(k, vs @ ws)]"
    if "(k, vs) \<in> set (body l)" for k vs
  proof -
    from that have "k \<in> fst ` set (body l)" by (force simp: image_iff)
    with keys have "k \<in> fst ` set (body r)" by simp
    then obtain ws where m: "(k, ws) \<in> set (body r)" by auto
    from filter_key_unique[OF dr m] m show ?thesis by auto
  qed
  let ?g = "\<lambda>(k, vs). (case filter (\<lambda>(k', ws). k' = k) (body r) of
           [] \<Rightarrow> [(k, vs @ replicate (length (columns r)) NaN)]
         | ms \<Rightarrow> map (\<lambda>(k', ws). (k, vs @ ws)) ms)"
  have k1: "map fst (concat (map ?g xs)) = map fst xs" if "set xs \<subseteq> set (body l)" for xs
    using that
  proof (induction xs)
    case Nil
    then show ?case by simp
  next
    case (Cons x xs)
    obtain k vs where x: "x = (k, vs)" by (cases x)
    with Cons.prems row[of k vs] obtain ws where "?g x = [(k, vs @ ws)]" by auto
    with Cons x show ?case by simp
  qed
  have k2: "list_all (\<lambda>(k, vs). length vs = length (columns l) + length (columns r))
              (concat (map ?g xs))" if "set xs \<subseteq> set (body l)" for xs
    using that
  proof (induction xs)
    case Nil
    then show ?case by simp
  next
    case (Cons x xs)
    obtain k vs where x: "x = (k, vs)" by (cases x)
    with Cons.prems row[of k vs] obtain ws where ws: "(k, ws) \<in> set (body r)"
      and g: "?g x = [(k, vs @ ws)]" by auto
    have "length vs = length (columns l)"
      using l Cons.prems x by (auto simp: state_shaped_def list_all_iff)
    moreover have "length ws = length (columns r)"
      using r ws by (auto simp: state_shaped_def list_all_iff)
    ultimately show ?case using Cons g by simp
  qed
  show ?thesis
    using l k1[of "body l"] k2[of "body l"]
    by (simp add: state_shaped_def merge_tables_def)
qed

lemma state_shaped_safety_score:
  assumes "wf_frame df"
  shows "state_shaped (compute_agg_safety_score df None)
       (levels (state_cats df) (map state_code (rows df)))"
proof -
  let ?lv = "levels (state_cats df) (map state_code (rows df))"
  let ?stats = "merge_tables (merge_tables (merge_tables
                    (compute_agg_incident_rate df None)
                    (compute_agg_fatality_rate df None))
                    (compute_agg_lost_workday_rate df None))
                    (compute_workforce_exposure df None) :: 'a gkey table"
  have d: "distinct ?lv" by (rule wf_frame_levels[OF assms])
  have s: "state_shaped ?stats ?lv"
    by (intro state_shaped_merge state_shaped_incident_rate state_shaped_fatality
        state_shaped_lost_workday state_shaped_workforce assms d)
  then show ?thesis
    unfolding compute_agg_safety_score_def Let_def
    by (auto simp: state_shaped_def list_all_iff comp_def case_prod_unfold)
qed

lemma state_shaped_kpi:
  assumes "wf_frame df" "kpi_name_function_mapping name = Some f"
  shows "state_shaped (f df None) (levels (state_cats df) (map state_code (rows df)))"
  using assms state_shaped_incident_rate state_shaped_fatality state_shaped_lost_workday
    state_shaped_workforce state_shaped_safety_score
  by (auto simp: kpi_name_function_mapping_def split: if_splits)


lemma map_err_all:
  assumes "\<And>k. k \<in> set ks \<Longrightarrow> f k = Inr (g k)"
  shows "map_err f ks = Inr (map g ks)"
  using assms by (induction ks) auto

lemma query_single_row:
  assumes sh: "state_shaped t lv" and d: "distinct lv" and m: "s \<in> set lv"
  shows "\<exists>vs. body (query_state s t) = [((s, None), vs)] \<and> vs \<noteq> []"
proof -
  have "map fst (filter (\<lambda>(k, vs). fst k = s) (body t))
          = filter (\<lambda>k. fst k = s) (map fst (body t))"
    by (simp add: filter_map comp_def case_prod_unfold)
  also have "\<dots> = map (\<lambda>s. (s, None)) (filter (\<lambda>x. x = s) lv)"
    using sh by (simp add: state_shaped_def filter_map comp_def)
  also have "filter (\<lambda>x. x = s) lv = [s]"
    using d m by (induction lv) (auto simp: filter_empty_conv)
  finally have k: "map fst (filter (\<lambda>(k, vs). fst k = s) (body t)) = [(s, None)]"
    by simp
  then obtain vs where b: "filter (\<lambda>(k, vs). fst k = s) (body t) = [((s, None), vs)]"
    by (cases "filter (\<lambda>(k, vs). fst k = s) (body t)") auto
  have "set (filter (\<lambda>(k, vs). fst k = s) (body t)) \<subseteq> set (body t)" by auto
  with b have "((s, None), vs) \<in> set (body t)" by simp
  with sh have "length vs = length (columns t)" "columns t \<noteq> []"
    by (auto simp: state_shaped_def list_all_iff)
  then have "vs \<noteq> []" by auto
  with b show ?thesis by (auto simp: query_state_def)
qed

lemma wf_frame_treemap_group: "wf_frame df \<Longrightarrow> wf_frame (treemap_group df state k)"
  by (auto simp: wf_frame_def treemap_group_def treemap_kept_def list_all_iff split: option.splits)

lemma treemap_group_rows:
  assumes "k \<in> set (treemap_keys df state)"
  shows "rows (treemap_group df state k) \<noteq> []
         \<and> (\<forall>r \<in> set (rows (treemap_group df state k)). state_code r = state)"
  using assms
  by (auto simp: treemap_keys_def treemap_group_def treemap_kept_def filter_empty_conv)

lemma treemap_group_levels:
  assumes w: "wf_frame df" and k: "k \<in> set (treemap_keys df state)"
  shows "distinct (levels (state_cats df) (map state_code (rows (treemap_group df state k))))
       \<and> state \<in> set (levels (state_cats df) (map state_code (rows (treemap_group df state k))))"
proof -
  let ?g = "rows (treemap_group df state k)"
  from treemap_group_rows[OF k] obtain r where r: "r \<in> set ?g" "state_code r = state"
    by (cases ?g) auto
  have sub: "set ?g \<subseteq> set (rows df)"
    by (auto simp: treemap_group_def treemap_kept_def)
  show ?thesis
  proof (cases "state_cats df")
    case None
    then show ?thesis using r by (force simp: levels_def)
  next
    case (Some cs)
    with w sub r show ?thesis
      by (auto simp: levels_def wf_frame_def list_all_iff)
  qed
qed

text \<open>
  C10. For a frame whose categorical state column is well formed, a focal state in plain
  text and a KPI of the dispatch table: every group of the treemap is non-empty and
  consists of rows of the focal state only; the metric table recomputed from the rows of
  the group, filtered back to the focal state, has exactly one row; the lookup of the
  last column of its first row yields a number; and the preparer returns a table with one
  row per group instead of raising.
\<close>

theorem treemap_metric_total:
  assumes w: "wf_frame df" and p: "plain_code state"
    and f: "kpi_name_function_mapping name = Some f"
  shows "(\<forall>k \<in> set (treemap_keys df state).
            rows (treemap_group df state k) \<noteq> []
          \<and> (\<forall>r \<in> set (rows (treemap_group df state k)). state_code r = state)
          \<and> length (body (query_state state (f (treemap_group df state k) None))) = 1
          \<and> (\<exists>v. treemap_metric f df state k = Inr (NumCell v)))
       \<and> (\<exists>out. prepare_treemap_data df state name = Inr out
                \<and> map (\<lambda>r. (tm_soc_description_1 r, tm_soc_description_2 r)) out
                    = treemap_keys df state)"
proof -
  have one: "\<exists>vs. body (query_state state (f (treemap_group df state k) None))
                     = [((state, None), vs)] \<and> vs \<noteq> []"
    if k: "k \<in> set (treemap_keys df state)" for k
  proof -
    let ?g = "treemap_group df state k"
    have c: "state_cats ?g = state_cats df" by (simp add: treemap_group_def)
    have "state_shaped (f ?g None) (levels (state_cats ?g) (map state_code (rows ?g)))"
      by (rule state_shaped_kpi[OF wf_frame_treemap_group[OF w] f])
    then show ?thesis
      using treemap_group_levels[OF w k] unfolding c
      by (intro query_single_row) auto
  qed
  have met: "\<exists>v. treemap_metric f df state k = Inr (NumCell v)"
    if k: "k \<in> set (treemap_keys df state)" for k
  proof -
    from one[OF k] obtain vs where
      b: "body (query_state state (f (treemap_group df state k) None)) = [((state, None), vs)]"
      and n: "vs \<noteq> []" by blast
    from n have "rev vs \<noteq> []" by simp
    then obtain v vs' where "rev vs = v # vs'" by (cases "rev vs") auto
    with b show ?thesis
      by (simp add: treemap_metric_def iloc_first_last_def)
  qed
  define g where "g = (\<lambda>k. \<lparr>tm_soc_description_1 = fst k, tm_soc_description_2 = snd k,
        tm_count = length (rows (treemap_group df state k)),
        tm_metric = projr (treemap_metric f df state k)\<rparr>)"
  have "prepare_treemap_data df state name = Inr (map g (treemap_keys df state))"
    unfolding prepare_treemap_data_def f option.case
  proof (rule map_err_all)
    fix k assume "k \<in> set (treemap_keys df state)"
    from met[OF this] show "(case treemap_metric f df state k of
               Inl e \<Rightarrow> Inl e
             | Inr m \<Rightarrow> Inr \<lparr>tm_soc_description_1 = fst k, tm_soc_description_2 = snd k,
                             tm_count = length (rows (treemap_group df state k)), tm_metric = m\<rparr>)
          = Inr (g k)"
      by (auto simp: g_def)
  qed
  moreover have "map (\<lambda>r. (tm_soc_description_1 r, tm_soc_description_2 r))
                   (map g (treemap_keys df state)) = treemap_keys df state"
    by (simp add: g_def comp_def)
  ultimately show ?thesis
    using treemap_group_rows one met by (metis (no_types, lifting) length_Cons list.size(3) One_nat_def)
qed


text \<open>
  The base dataset has one occupation group in CA, and its danger score is found.
\<close>

theorem treemap_metric_total_witness:
  "wf_frame example_base \<and> plain_code ''CA''
   \<and> kpi_name_function_mapping ''danger_score''
       = Some (compute_agg_safety_score :: dataframe \<Rightarrow> unit column option \<Rightarrow> unit gkey table)
   \<and> treemap_keys example_base ''CA'' = [(''A'', ''B'')]
   \<and> length (body (query_state ''CA''
        (compute_agg_safety_score (treemap_group example_base ''CA'' (''A'', ''B''))
           (None :: unit column option)))) = 1
   \<and> (\<exists>out. prepare_treemap_data example_base ''CA'' ''danger_score'' = Inr out
            \<and> map (\<lambda>r. (tm_soc_description_1 r, tm_soc_description_2 r)) out = [(''A'', ''B'')])"
proof -
  have w: "wf_frame example_base" by code_simp
  have p: "plain_code ''CA''" by code_simp
  have f: "kpi_name_function_mapping ''danger_score''
             = Some (compute_agg_safety_score :: dataframe \<Rightarrow> unit column option \<Rightarrow> unit gkey table)"
    by (simp add: kpi_name_function_mapping_def)
  have k: "treemap_keys example_base ''CA'' = [(''A'', ''B'')]" by code_simp
  from treemap_metric_total[OF w p f] w p f k show ?thesis
    by simp
qed


section \<open>Preparers on a frame without rows\<close>

lemma merge_inner_unique:
  assumes d: "distinct (map fst r)" and sub: "fst ` set l \<subseteq> fst ` set r"
  shows "map (\<lambda>(k, a, b). (k, a)) (merge_inner l r) = l"
  using sub
proof (induction l)
  case Nil
  then show ?case by (simp add: merge_inner_def)
next
  case (Cons x l)
  obtain k a where x: "x = (k, a)" by (cases x)
  with Cons.prems obtain b where m: "(k, b) \<in> set r" by (auto simp: image_iff)
  have "filter (\<lambda>(k', b). k' = k) r = [(k, b)]"
    by (rule filter_key_unique[OF d m])
  moreover have "map (\<lambda>(k, a, b). (k, a)) (merge_inner l r) = l"
    using Cons by simp
  ultimately show ?case
    using x by (simp add: merge_inner_def)
qed

lemma prepare_state_data_rows:
  assumes w: "wf_frame df"
    and f: "kpi_name_function_mapping name = Some (f :: dataframe \<Rightarrow> unit column option \<Rightarrow> unit gkey table)"
  shows "\<exists>out. prepare_state_data df name = Inr (columns (f df None), out)
           \<and> map (\<lambda>(k, r, vs). (k, case_number_count r)) out
               = map (\<lambda>s. ((s, None), agg_count (None :: unit column option) (rows df) (s, None)))
                     (levels (state_cats df) (map state_code (rows df)))"
proof -
  let ?lv = "levels (state_cats df) (map state_code (rows df))"
  let ?ks = "map (\<lambda>s. (s, None)) ?lv :: unit gkey list"
  let ?dd = "deduplicated df"
  let ?company_rows = "map (\<lambda>k. (k, (agg_mean annual_average_employees None ?dd k,
                                         Fin (agg_sum annual_average_employees None ?dd k),
                                         agg_mean total_hours_worked None ?dd k))) ?ks"
  let ?injury_rows = "map (\<lambda>k. (k, (agg_mean dafw_num_away None (rows df) k,
                                        agg_mean djtr_num_tr None (rows df) k,
                                        agg_mean death None (rows df) k,
                                        agg_count None (rows df) k))) ?ks"
  let ?mk = "\<lambda>(k, (em, es, hm), (da, dj, de, n)).
              (k, \<lparr>annual_average_employees_median = em, annual_average_employees_sum = es,
                   total_hours_worked_mean = hm, dafw_num_away_mean = da, djtr_num_tr_mean = dj,
                   death_mean = de, case_number_count = n,
                   injury_density = np_where (fgt em (Fin 0)) (fdiv (of_count n) es) (Fin 0)\<rparr>)"
  let ?agg = "map ?mk (merge_inner ?company_rows ?injury_rows)"
  have dk: "distinct ?ks"
    using wf_frame_levels[OF w] by (simp add: distinct_map inj_on_def)
  have gk: "group_keys (state_cats df) None ?dd = ?ks"
    by (simp add: group_keys_state deduplicated_def levels_dedup)
  have gk2: "group_keys (state_cats df) None (rows df) = ?ks"
    by (simp add: group_keys_state)
  have mi: "merge_inner ?company_rows ?injury_rows
      = map (\<lambda>k. (k, (agg_mean annual_average_employees None ?dd k,
                       Fin (agg_sum annual_average_employees None ?dd k),
                       agg_mean total_hours_worked None ?dd k),
                      (agg_mean dafw_num_away None (rows df) k,
                       agg_mean djtr_num_tr None (rows df) k,
                       agg_mean death None (rows df) k,
                       agg_count None (rows df) k))) ?ks"
  proof -
    have "\<And>k. k \<in> set ?ks \<Longrightarrow>
        filter (\<lambda>(k', b). k' = k) ?injury_rows
          = [(k, (agg_mean dafw_num_away None (rows df) k,
                       agg_mean djtr_num_tr None (rows df) k,
                       agg_mean death None (rows df) k,
                       agg_count None (rows df) k))]"
      using dk by (intro filter_key_singleton) auto
    then show ?thesis
      unfolding merge_inner_def
      by (simp add: comp_def cong: map_cong)
  qed
  have aggk: "map (\<lambda>(k, r). (k, case_number_count r)) ?agg
                = map (\<lambda>k. (k, agg_count None (rows df) k)) ?ks"
    unfolding mi by (simp add: comp_def)
  have sh: "state_shaped (f df None) ?lv"
    by (rule state_shaped_kpi[OF w f])
  have dr: "distinct (map fst (body (f df None)))"
    using sh dk by (simp add: state_shaped_def)
  have sub: "fst ` set ?agg \<subseteq> fst ` set (body (f df None))"
  proof -
    have "map fst ?agg = ?ks" unfolding mi by (simp add: comp_def)
    moreover have "map fst (body (f df None)) = ?ks"
      using sh by (simp add: state_shaped_def)
    ultimately have "set (map fst ?agg) = set (map fst (body (f df None)))"
      by (simp only:)
    then have "fst ` set ?agg = fst ` set (body (f df None))"
      unfolding set_map .
    then show ?thesis by (rule equalityD1)
  qed
  let ?out = "merge_inner ?agg (body (f df None))"
  have p: "prepare_state_data df name = Inr (columns (f df None), ?out)"
    unfolding prepare_state_data_def Let_def gk gk2 f by simp
  have "map (\<lambda>(k, r, vs). (k, r)) ?out = ?agg"
    by (rule merge_inner_unique[OF dr sub])
  then have "map (\<lambda>(k, r). (k, case_number_count r)) (map (\<lambda>(k, r, vs). (k, r)) ?out)
               = map (\<lambda>k. (k, agg_count None (rows df) k)) ?ks"
    using aggk by simp
  then have "map (\<lambda>(k, r, vs). (k, case_number_count r)) ?out
               = map (\<lambda>s. ((s, None), agg_count (None :: unit column option) (rows df) (s, None))) ?lv"
    by (simp add: comp_def case_prod_unfold)
  with p show ?thesis by blast
qed


text \<open>
  C9, as amended. For a frame with no rows and a KPI of the dispatch table, the treemap,
  scatter and stacked-bar preparers return a table with no rows and raise nothing, and
  the state preparer returns, without raising, the KPI's columns and one row per state of
  the result index, each with a case count of 0: no row when \<open>state_code\<close> is a plain
  column, one row per category when it is categorical. The radar preparer is not
  covered.
\<close>

theorem preparers_on_empty_frame:
  assumes e: "rows df = []" and w: "wf_frame df"
    and f: "kpi_name_function_mapping name
              = Some (f :: dataframe \<Rightarrow> unit column option \<Rightarrow> unit gkey table)"
  shows "prepare_treemap_data df state name = Inr []
       \<and> prepare_scatter_plot df state = Inr []
       \<and> prepare_stacked_bar_chart df state = \<lparr>columns = [], body = []\<rparr>
       \<and> (\<exists>out. prepare_state_data df name = Inr (columns (f df None), out)
            \<and> map (\<lambda>(k, r, vs). (k, case_number_count r)) out
                = map (\<lambda>s. ((s, None), 0))
                      (case state_cats df of None \<Rightarrow> [] | Some cs \<Rightarrow> cs))"
proof -
  have t: "prepare_treemap_data df state name = Inr []"
    using e f by (simp add: prepare_treemap_data_def treemap_keys_def treemap_kept_def)
  have s: "prepare_scatter_plot df state = Inr []"
    using e by (simp add: prepare_scatter_plot_def)
  have b: "prepare_stacked_bar_chart df state = \<lparr>columns = [], body = []\<rparr>"
    using e by (simp add: prepare_stacked_bar_chart_def bar_filtered_def)
  have lv: "levels (state_cats df) (map state_code (rows df))
              = (case state_cats df of None \<Rightarrow> [] | Some cs \<Rightarrow> cs)"
    using e by (simp add: levels_def split: option.splits)
  have c: "agg_count (None :: unit column option) (rows df) k = 0" for k
    using e by (simp add: agg_count_def group_rows_def)
  from prepare_state_data_rows[OF w f] t s b show ?thesis
    unfolding lv c by simp
qed

text \<open>An empty frame with the categories CA and TX.\<close>

theorem preparers_on_empty_frame_witness:
  "rows \<lparr>rows = [], state_cats = Some [''CA'', ''TX'']\<rparr> = []
   \<and> wf_frame \<lparr>rows = [], state_cats = Some [''CA'', ''TX'']\<rparr>
   \<and> prepare_treemap_data \<lparr>rows = [], state_cats = Some [''CA'', ''TX'']\<rparr> ''CA'' ''incident_rate''
       = Inr []
   \<and> prepare_scatter_plot \<lparr>rows = [], state_cats = Some [''CA'', ''TX'']\<rparr> ''CA'' = Inr []
   \<and> prepare_stacked_bar_chart \<lparr>rows = [], state_cats = Some [''CA'', ''TX'']\<rparr> ''CA''
       = \<lparr>columns = [], body = []\<rparr>
   \<and> (\<exists>out. prepare_state_data \<lparr>rows = [], state_cats = Some [''CA'', ''TX'']\<rparr> ''incident_rate''
              = Inr ([''incident_rate''], out)
            \<and> map (\<lambda>(k, r, vs). (k, case_number_count r)) out
                = [((''CA'', None), 0), ((''TX'', None), 0)])"
proof -
  let ?df = "\<lparr>rows = [], state_cats = Some [''CA'', ''TX'']\<rparr>"
  have e: "rows ?df = []" by simp
  have w: "wf_frame ?df" by (simp add: wf_frame_def)
  have f: "kpi_name_function_mapping ''incident_rate''
             = Some (compute_agg_incident_rate :: dataframe \<Rightarrow> unit column option \<Rightarrow> unit gkey table)"
    by (simp add: kpi_name_function_mapping_def)
  have c: "columns (compute_agg_incident_rate ?df (None :: unit column option)) = [''incident_rate'']"
    by (simp add: compute_agg_incident_rate_def Let_def)
  from preparers_on_empty_frame[OF e w f, of "''CA''"] e w show ?thesis
    unfolding c by simp
qed

text \<open>
  C9 as stated fails for the radar preparer. Filtering the base dataset to an incident
  type that does not occur leaves a frame without rows; on it the radar preparer raises
  \<open>IndexError\<close> (the score table is empty, and \<open>.iloc[0]\<close> needs a row). With a
  categorical \<open>state_code\<close> it returns five rows, one per metric, not an empty table.
\<close>

theorem radar_on_empty_frame_counterexample:
  "filter_data (init_store example_base) (data (init_store example_base)) (Some 1) (Some 3)
       [''Chemical'']
     = (Inr (1, \<lparr>rows = [], state_cats = None\<rparr>), (init_store example_base)\<lparr>next_oid := 2\<rparr>)
   \<and> fst (prepare_radar_data ((init_store example_base)\<lparr>next_oid := 2\<rparr>)
            (1, \<lparr>rows = [], state_cats = None\<rparr>) ''CA'') = Inl IndexError
   \<and> map kpi (projr (fst (prepare_radar_data
         ((init_store example_base_categorical)\<lparr>next_oid := 2\<rparr>)
         (1, \<lparr>rows = [], state_cats = Some [''CA'', ''TX'']\<rparr>) ''CA'')))
       = [''incident_rate'', ''fatality_rate'', ''lost_workday_rate'', ''workforce_exposure'',
          ''danger_score'']"
  by code_simp


section \<open>Click payloads without a point\<close>

text \<open>
  C8 at its failing inputs. A payload \<open>{"points": []}\<close> passes the guard of both
  handlers, and \<open>["points"][0]\<close> raises \<open>IndexError\<close> in the radar handler and in the
  bar handler. A non-empty payload without the key \<open>points\<close> makes the bar handler
  return \<open>None\<close> as the new selection while the selection was \<open>Injury\<close>: the
  selection is cleared, not kept. What holds: the radar handler returns \<open>no_update\<close>
  for no payload, for a payload without \<open>points\<close>, and for a label that the reverse
  lookup does not know.
\<close>

theorem click_handlers_on_malformed_payload:
  "update_on_radar_click (Some [(''points'', PList [])]) = Inl IndexError
   \<and> fst (update_graphs_on_barchart_click ct cs (init_store example_base)
            (Some [(''points'', PList [])]) (Some 1) (Some 3) [] ''incident_rate'' ''CA''
            (PStr ''Injury'')) = Inl IndexError
   \<and> (case fst (update_graphs_on_barchart_click ct cs (init_store example_base)
            (Some [(''curveNumber'', PNum 0)]) (Some 1) (Some 3) [] ''incident_rate'' ''CA''
            (PStr ''Injury'')) of
         Inl e \<Rightarrow> False
       | Inr (treemap_fig, scatter_fig, new_outcome) \<Rightarrow> new_outcome = PNone)
   \<and> update_on_radar_click None = Inr NoUpdate
   \<and> update_on_radar_click (Some [(''curveNumber'', PNum 0)]) = Inr NoUpdate
   \<and> update_on_radar_click (Some [(''points'', PList [PDict [(''theta'', PStr ''Unknown'')]])])
       = Inr NoUpdate"
proof -
  have r1: "update_on_radar_click (Some [(''points'', PList [])]) = Inl IndexError"
    by (simp add: update_on_radar_click_def first_point_field_def)
  have f: "filter_data (init_store example_base) (data (init_store example_base)) (Some 1) (Some 3) []
             = (Inr (data (init_store example_base)), init_store example_base)"
    by code_simp
  have b1: "fst (update_graphs_on_barchart_click ct cs (init_store example_base)
            (Some [(''points'', PList [])]) (Some 1) (Some 3) [] ''incident_rate'' ''CA''
            (PStr ''Injury'')) = Inl IndexError"
    by (simp add: update_graphs_on_barchart_click_def f first_point_field_def)
  have "\<not> isl (prepare_treemap_data (snd (data (init_store example_base))) ''CA'' ''incident_rate'')"
    by code_simp
  then have t: "\<exists>x. prepare_treemap_data (snd (data (init_store example_base))) ''CA'' ''incident_rate'' = Inr x"
    by (cases "prepare_treemap_data (snd (data (init_store example_base))) ''CA'' ''incident_rate''") auto
  have "\<not> isl (prepare_scatter_plot (snd (data (init_store example_base))) ''CA'')"
    by code_simp
  then have s: "\<exists>x. prepare_scatter_plot (snd (data (init_store example_base))) ''CA'' = Inr x"
    by (cases "prepare_scatter_plot (snd (data (init_store example_base))) ''CA''") auto
  have b2: "(case fst (update_graphs_on_barchart_click ct cs (init_store example_base)
            (Some [(''curveNumber'', PNum 0)]) (Some 1) (Some 3) [] ''incident_rate'' ''CA''
            (PStr ''Injury'')) of
         Inl e \<Rightarrow> False
       | Inr (treemap_fig, scatter_fig, new_outcome) \<Rightarrow> new_outcome = PNone)"
    using t s by (auto simp add: update_graphs_on_barchart_click_def f)
  have r2: "update_on_radar_click None = Inr NoUpdate"
    "update_on_radar_click (Some [(''curveNumber'', PNum 0)]) = Inr NoUpdate"
    "update_on_radar_click (Some [(''points'', PList [PDict [(''theta'', PStr ''Unknown'')]])])
       = Inr NoUpdate"
    by (simp_all add: update_on_radar_click_def first_point_field_def dropdown_options_rev_def)
  from r1 b1 b2 r2 show ?thesis by blast
qed


section \<open>The secondary dimension\<close>

lemma product_keys:
  "concat (map (\<lambda>s. map (\<lambda>c. (s, Some c)) lc) ls) = map (\<lambda>(s, c). (s, Some c)) (List.product ls lc)"
  by (induction ls) (simp_all add: comp_def)

lemma group_keys_distinct:
  assumes "case scats of None \<Rightarrow> True | Some cs \<Rightarrow> distinct cs"
    and "case ccats of None \<Rightarrow> True | Some cs \<Rightarrow> distinct cs"
  shows "distinct (group_keys scats (Some (sel, ccats)) rs)"
proof (cases "scats = None \<and> ccats = None")
  case True
  then show ?thesis
    by (auto simp: group_keys_def distinct_map inj_on_def)
next
  case False
  have "distinct (List.product (levels scats (map state_code rs)) (levels ccats (map sel rs)))"
    using assms by (intro distinct_product levels_distinct)
  then show ?thesis
    using False unfolding group_keys_def
    by (simp add: product_keys distinct_map inj_on_def)
qed

lemma group_keys_cover:
  assumes "case scats of None \<Rightarrow> True | Some cs \<Rightarrow> state_code ` set rs \<subseteq> set cs"
    and "case ccats of None \<Rightarrow> True | Some cs \<Rightarrow> sel ` set rs \<subseteq> set cs"
    and "r \<in> set rs"
  shows "row_key (Some (sel, ccats)) r \<in> set (group_keys scats (Some (sel, ccats)) rs)"
proof (cases "scats = None \<and> ccats = None")
  case True
  then show ?thesis
    using assms(3) by (force simp: group_keys_def row_key_def image_iff)
next
  case False
  have s: "state_code r \<in> set (levels scats (map state_code rs))"
    using assms(1,3) by (auto simp: levels_def split: option.splits)
  have c: "sel r \<in> set (levels ccats (map sel rs))"
    using assms(2,3) by (auto simp: levels_def split: option.splits)
  show ?thesis
    using False s c unfolding group_keys_def row_key_def
    by (force simp: product_keys image_iff)
qed

lemma distinct_filter_eq_le1: "distinct xs \<Longrightarrow> length (filter (\<lambda>k'. k' = k) xs) \<le> 1"
  by (induction xs) (auto simp: filter_empty_conv)

lemma merge_left_keys:
  assumes "distinct (map fst r)"
  shows "map fst (merge_left l r) = map fst l"
proof (induction l)
  case Nil
  then show ?case by (simp add: merge_left_def)
next
  case (Cons x l)
  obtain k a where x: "x = (k, a)" by (cases x)
  have "length (filter (\<lambda>(k', v). k' = k) r) \<le> 1"
  proof -
    have "map fst (filter (\<lambda>(k', v). k' = k) r) = filter (\<lambda>k'. k' = k) (map fst r)"
      by (simp add: filter_map comp_def case_prod_unfold)
    moreover have "length (filter (\<lambda>k'. k' = k) (map fst r)) \<le> 1"
      using assms by (rule distinct_filter_eq_le1)
    ultimately show ?thesis by (metis length_map)
  qed
  then have "map fst (case filter (\<lambda>(k', v). k' = k) r of
                 [] \<Rightarrow> [(k, a, NaN)] | ms \<Rightarrow> map (\<lambda>(k', v). (k, a, v)) ms) = [k]"
    by (cases "filter (\<lambda>(k', v). k' = k) r") (auto simp: case_prod_unfold)
  with Cons x show ?case
    unfolding merge_left_def by simp
qed

lemma merge_tables_keys:
  assumes "distinct (map fst (body r))"
  shows "map fst (body (merge_tables l r)) = map fst (body l)"
proof -
  have one: "map fst (case filter (\<lambda>(k', ws). k' = k) (body r) of
                 [] \<Rightarrow> [(k, vs @ replicate (length (columns r)) NaN)]
               | ms \<Rightarrow> map (\<lambda>(k', ws). (k, vs @ ws)) ms) = [k]" for k vs
  proof -
    have "map fst (filter (\<lambda>(k', v). k' = k) (body r)) = filter (\<lambda>k'. k' = k) (map fst (body r))"
      by (simp add: filter_map comp_def case_prod_unfold)
    moreover have "length (filter (\<lambda>k'. k' = k) (map fst (body r))) \<le> 1"
      using assms by (rule distinct_filter_eq_le1)
    ultimately have "length (filter (\<lambda>(k', v). k' = k) (body r)) \<le> 1" by (metis length_map)
    then show ?thesis
      by (cases "filter (\<lambda>(k', ws). k' = k) (body r)") (auto simp: case_prod_unfold)
  qed
  have "map fst (concat (map (\<lambda>(k, vs). (case filter (\<lambda>(k', ws). k' = k) (body r) of
                 [] \<Rightarrow> [(k, vs @ replicate (length (columns r)) NaN)]
               | ms \<Rightarrow> map (\<lambda>(k', ws). (k, vs @ ws)) ms)) xs)) = map fst xs" for xs
  proof (induction xs)
    case Nil
    then show ?case by simp
  next
    case (Cons x xs)
    obtain k vs where "x = (k, vs)" by (cases x)
    with Cons one[of k vs] show ?case by simp
  qed
  then show ?thesis by (simp add: merge_tables_def)
qed


lemma distinct_filter_eq_1:
  "distinct xs \<Longrightarrow> a \<in> set xs \<Longrightarrow> length (filter (\<lambda>k. a = k) xs) = 1"
  by (induction xs) (auto simp: filter_empty_conv)

lemma wf_cats:
  assumes "wf_frame df" "wf_column (sel, ccats) df"
  shows "case state_cats df of None \<Rightarrow> True | Some cs \<Rightarrow> distinct cs"
    and "case ccats of None \<Rightarrow> True | Some cs \<Rightarrow> distinct cs"
    and "set rs \<subseteq> set (rows df) \<Longrightarrow>
           (case state_cats df of None \<Rightarrow> True | Some cs \<Rightarrow> state_code ` set rs \<subseteq> set cs)"
    and "set rs \<subseteq> set (rows df) \<Longrightarrow>
           (case ccats of None \<Rightarrow> True | Some cs \<Rightarrow> sel ` set rs \<subseteq> set cs)"
  using assms by (auto simp: wf_frame_def wf_column_def list_all_iff split: option.splits)

lemma metric_keys:
  fixes sel :: "incident \<Rightarrow> 'c::linorder"
  assumes w: "wf_frame df" and c: "wf_column (sel, ccats) df"
  defines "ks \<equiv> group_keys (state_cats df) (Some (sel, ccats)) (rows df)"
  shows "map fst (body (compute_agg_incident_rate df (Some (sel, ccats)))) = ks"
    and "map fst (body (compute_agg_fatality_rate df (Some (sel, ccats)))) = ks"
    and "map fst (body (compute_agg_lost_workday_rate df (Some (sel, ccats)))) = ks"
    and "map fst (body (compute_workforce_exposure df (Some (sel, ccats)))) = ks"
    and "map fst (body (compute_agg_safety_score df (Some (sel, ccats)))) = ks"
    and "distinct ks"
proof -
  let ?col = "Some (sel, ccats)"
  show d: "distinct ks"
    unfolding ks_def by (rule group_keys_distinct[OF wf_cats(1,2)[OF w c]])
  have dc: "distinct (map fst (company_data f df ?col))" for f
    using group_keys_distinct[OF wf_cats(1,2)[OF w c]]
    by (simp add: company_data_def comp_def)
  have ml: "map fst (merge_left (injury_data df ?col) (company_data f df ?col)) = ks" for f
  proof -
    have "map fst (merge_left (injury_data df ?col) (company_data f df ?col))
            = map fst (injury_data df ?col)"
      by (rule merge_left_keys[OF dc])
    then show ?thesis by (simp add: injury_data_def ks_def comp_def)
  qed
  show ir: "map fst (body (compute_agg_incident_rate df ?col)) = ks"
    using ml[of total_hours_worked]
    by (simp add: compute_agg_incident_rate_def Let_def comp_def case_prod_unfold)
  show fr: "map fst (body (compute_agg_fatality_rate df ?col)) = ks"
    by (simp add: compute_agg_fatality_rate_def Let_def comp_def ks_def)
  show lw: "map fst (body (compute_agg_lost_workday_rate df ?col)) = ks"
    by (simp add: compute_agg_lost_workday_rate_def Let_def comp_def ks_def)
  show we: "map fst (body (compute_workforce_exposure df ?col)) = ks"
    using ml[of annual_average_employees]
    by (simp add: compute_workforce_exposure_def Let_def comp_def case_prod_unfold)
  have "map fst (body (merge_tables (merge_tables (merge_tables
                    (compute_agg_incident_rate df ?col)
                    (compute_agg_fatality_rate df ?col))
                    (compute_agg_lost_workday_rate df ?col))
                    (compute_workforce_exposure df ?col))) = ks"
    using d by (simp add: merge_tables_keys ir fr lw we)
  then show "map fst (body (compute_agg_safety_score df ?col)) = ks"
    by (simp add: compute_agg_safety_score_def Let_def comp_def case_prod_unfold)
qed

lemma dedup_first_record:
  assumes "r \<in> set (drop_duplicates company_key rs)"
  shows "spec_first_record rs (state_code r) (company_name r) = Some r"
proof -
  have "(\<lambda>r'. company_key r' = company_key r)
          = (\<lambda>r'. state_code r' = state_code r \<and> company_name r' = company_name r)"
    by (auto simp: company_key_def)
  with drop_duplicates_first[OF assms] show ?thesis
    by (simp add: spec_first_record_def)
qed

lemma first_record_in_dedup:
  assumes "spec_first_record rs s c = Some r"
  shows "r \<in> set (drop_duplicates company_key rs) \<and> state_code r = s \<and> company_name r = c"
proof -
  from assms have r: "r \<in> set rs" "state_code r = s" "company_name r = c"
    unfolding spec_first_record_def by (auto simp: find_Some_iff)
  then have "company_key r \<in> company_key ` set (drop_duplicates company_key rs)"
    unfolding drop_duplicates_keys by simp
  then obtain y where y: "y \<in> set (drop_duplicates company_key rs)" "company_key y = company_key r"
    by auto
  then have "state_code y = s" "company_name y = c"
    using r by (auto simp: company_key_def)
  with dedup_first_record[OF y(1)] assms have "y = r" by simp
  with y r show ?thesis by simp
qed

lemma dedup_group_sum:
  "sum_list (map f (filter (\<lambda>r. state_code r = s \<and> P r) (drop_duplicates company_key rs)))
   = (\<Sum>c \<in> {c \<in> spec_companies rs s.
                  case spec_first_record rs s c of None \<Rightarrow> False | Some r \<Rightarrow> P r}.
        spec_company_field f rs s c)"
proof -
  let ?dd = "drop_duplicates company_key rs"
  let ?xs = "filter (\<lambda>r. state_code r = s \<and> P r) ?dd"
  let ?C = "{c \<in> spec_companies rs s.
               case spec_first_record rs s c of None \<Rightarrow> False | Some r \<Rightarrow> P r}"
  have fst_rec: "spec_first_record rs s (company_name r) = Some r" if "r \<in> set ?xs" for r
    using that dedup_first_record[of r rs] by auto
  have val: "f r = spec_company_field f rs s (company_name r)" if "r \<in> set ?xs" for r
    using fst_rec[OF that] by (simp add: spec_company_field_def)
  have d: "distinct (map company_name ?xs)"
  proof -
    have dk: "distinct (map company_key ?xs)"
      using drop_duplicates_distinct[of company_key rs] by (simp add: distinct_map_filter)
    moreover have "inj_on company_name (set ?xs)"
      using dk by (auto simp: inj_on_def distinct_map company_key_def)
    ultimately show ?thesis by (simp add: distinct_map)
  qed
  have s: "set (map company_name ?xs) = ?C"
  proof
    show "set (map company_name ?xs) \<subseteq> ?C"
    proof
      fix c assume "c \<in> set (map company_name ?xs)"
      then obtain r where r: "r \<in> set ?xs" "c = company_name r" by auto
      then have "r \<in> set rs" "state_code r = s" "P r"
        using drop_duplicates_subset[of company_key rs] by auto
      then have "c \<in> spec_companies rs s"
        using r by (auto simp: spec_companies_def)
      with fst_rec[OF r(1)] r \<open>P r\<close> show "c \<in> ?C" by simp
    qed
  next
    show "?C \<subseteq> set (map company_name ?xs)"
    proof
      fix c assume "c \<in> ?C"
      then obtain r where r: "spec_first_record rs s c = Some r" "P r"
        by (auto split: option.splits)
      from first_record_in_dedup[OF r(1)] r(2) have "r \<in> set ?xs" "company_name r = c"
        by auto
      then show "c \<in> set (map company_name ?xs)" by force
    qed
  qed
  have "sum_list (map f ?xs) = sum_list (map (spec_company_field f rs s) (map company_name ?xs))"
    unfolding map_map comp_def using val by (intro arg_cong[where f = sum_list] map_cong) auto
  also have "\<dots> = sum (spec_company_field f rs s) (set (map company_name ?xs))"
    using d by (rule sum.distinct_set_conv_list[symmetric])
  finally show ?thesis unfolding s .
qed

lemma group_field_agg_sum:
  "agg_sum f (Some (sel, ccats)) (drop_duplicates company_key rs) (s, Some cat)
     = spec_group_field f rs sel (s, Some cat)"
proof -
  have "{c \<in> spec_companies rs s.
           case spec_first_record rs s c of None \<Rightarrow> False | Some r \<Rightarrow> sel r = cat}
        = spec_group_companies rs sel s cat"
    by (auto simp: spec_group_companies_def split: option.splits)
  moreover have "(\<lambda>r. row_key (Some (sel, ccats)) r = (s, Some cat))
                   = (\<lambda>r. state_code r = s \<and> sel r = cat)"
    by (auto simp: row_key_def)
  ultimately show ?thesis
    using dedup_group_sum[of f s "\<lambda>r. sel r = cat" rs]
    by (simp add: agg_sum_def group_rows_def spec_group_field_def)
qed

lemma state_field_sum:
  "sum_list (map f (filter (\<lambda>r. state_code r = s) (drop_duplicates company_key rs)))
     = (\<Sum>c \<in> spec_companies rs s. spec_company_field f rs s c)"
proof -
  have "{c \<in> spec_companies rs s.
           case spec_first_record rs s c of None \<Rightarrow> False | Some r \<Rightarrow> True}
        = spec_companies rs s"
  proof -
    have "spec_first_record rs s c \<noteq> None" if "c \<in> spec_companies rs s" for c
      using that by (auto simp: spec_companies_def spec_first_record_def find_None_iff)
    then show ?thesis by (auto split: option.splits)
  qed
  then show ?thesis
    using dedup_group_sum[of f s "\<lambda>r. True" rs] by simp
qed

lemma group_count_agg_count:
  "agg_count (Some (sel, ccats)) rs (s, Some cat) = spec_group_count rs sel (s, Some cat)"
proof -
  have "(\<lambda>r. row_key (Some (sel, ccats)) r = (s, Some cat))
                   = (\<lambda>r. state_code r = s \<and> sel r = cat)"
    by (auto simp: row_key_def)
  then show ?thesis
    by (simp add: agg_count_def group_rows_def spec_group_count_def)
qed

lemma group_keys_form:
  "k \<in> set (group_keys scats (Some (sel, ccats)) rs) \<Longrightarrow> \<exists>s cat. k = (s, Some cat)"
  by (auto simp: group_keys_def split: if_splits)

lemma filter_key_map_of:
  assumes "distinct (map fst r)"
  shows "filter (\<lambda>(k', v). k' = k) r = (case map_of r k of None \<Rightarrow> [] | Some v \<Rightarrow> [(k, v)])"
  using assms
proof (induction r)
  case Nil
  then show ?case by simp
next
  case (Cons x r)
  obtain k' v where x: "x = (k', v)" by (cases x)
  show ?case
  proof (cases "k' = k")
    case True
    with Cons.prems x have "map_of r k = None"
      by (auto simp: map_of_eq_None_iff)
    with Cons x True show ?thesis by simp
  next
    case False
    with Cons x show ?thesis by simp
  qed
qed

lemma merge_left_map_of:
  assumes "distinct (map fst r)"
  shows "merge_left l r
           = map (\<lambda>(k, a). (k, a, case map_of r k of None \<Rightarrow> NaN | Some v \<Rightarrow> v)) l"
proof -
  have one: "(case filter (\<lambda>(k', v). k' = k) r of [] \<Rightarrow> [(k, a, NaN)]
           | ms \<Rightarrow> map (\<lambda>(k', v). (k, a, v)) ms)
        = [(k, a, case map_of r k of None \<Rightarrow> NaN | Some v \<Rightarrow> v)]" for k a
    unfolding filter_key_map_of[OF assms] by (simp split: option.splits)
  have "concat (map (\<lambda>(k, a). (case filter (\<lambda>(k', v). k' = k) r of [] \<Rightarrow> [(k, a, NaN)]
           | ms \<Rightarrow> map (\<lambda>(k', v). (k, a, v)) ms)) l)
        = concat (map (\<lambda>(k, a). [(k, a, case map_of r k of None \<Rightarrow> NaN | Some v \<Rightarrow> v)]) l)"
    by (intro arg_cong[where f = concat] map_cong) (auto simp: one)
  also have "\<dots> = map (\<lambda>(k, a). (k, a, case map_of r k of None \<Rightarrow> NaN | Some v \<Rightarrow> v)) l"
    by (induction l) auto
  finally show ?thesis
    unfolding merge_left_def .
qed

lemma group_row_sum_agg_sum:
  "agg_sum f (Some (sel, ccats)) rs (s, Some cat) = spec_group_row_sum f rs sel (s, Some cat)"
proof -
  have "(\<lambda>r. row_key (Some (sel, ccats)) r = (s, Some cat))
                   = (\<lambda>r. state_code r = s \<and> sel r = cat)"
    by (auto simp: row_key_def)
  then show ?thesis
    by (simp add: agg_sum_def group_rows_def spec_group_row_sum_def)
qed

lemma merge_tables_same_keys:
  assumes "distinct ks" "body l = map (\<lambda>k. (k, f k)) ks" "body r = map (\<lambda>k. (k, g k)) ks"
  shows "body (merge_tables l r) = map (\<lambda>k. (k, f k @ g k)) ks"
proof -
  have "\<And>k. k \<in> set ks \<Longrightarrow>
      (case filter (\<lambda>(k', ws). k' = k) (map (\<lambda>k. (k, g k)) ks) of
           [] \<Rightarrow> [(k, f k @ replicate (length (columns r)) NaN)]
         | ms \<Rightarrow> map (\<lambda>(k', ws). (k, f k @ ws)) ms) = [(k, f k @ g k)]"
    using assms(1) by (simp add: filter_key_singleton)
  then have "concat (map (\<lambda>k. (case filter (\<lambda>(k', ws). k' = k) (map (\<lambda>k. (k, g k)) ks) of
           [] \<Rightarrow> [(k, f k @ replicate (length (columns r)) NaN)]
         | ms \<Rightarrow> map (\<lambda>(k', ws). (k, f k @ ws)) ms)) ks)
      = concat (map (\<lambda>k. [(k, f k @ g k)]) ks)"
    by (intro arg_cong[where f = concat] map_cong) auto
  then show ?thesis
    by (simp add: merge_tables_def assms(2,3) comp_def)
qed

lemma group_tables:
  fixes sel :: "incident \<Rightarrow> 'c::linorder"
  assumes w: "wf_frame df" and c: "wf_column (sel, ccats) df"
  defines "col \<equiv> Some (sel, ccats)"
  defines "ks \<equiv> group_keys (state_cats df) col (rows df)"
  defines "kd \<equiv> group_keys (state_cats df) col (deduplicated df)"
  shows "distinct ks"
    and "r \<in> set (rows df) \<Longrightarrow> (state_code r, Some (sel r)) \<in> set ks"
    and "k \<in> set ks \<Longrightarrow> k \<notin> set kd \<Longrightarrow> spec_group_field f (rows df) sel k = 0"
    and "merge_left (injury_data df col) (company_data f df col)
           = map (\<lambda>k. (k, spec_group_count (rows df) sel k,
                          if k \<in> set kd then Fin (spec_group_field f (rows df) sel k) else NaN)) ks"
    and "body (compute_agg_fatality_rate df col)
           = map (\<lambda>k. (k, [spec_group_fatality_rate (rows df) sel k])) ks"
    and "body (compute_agg_lost_workday_rate df col)
           = map (\<lambda>k. (k, [spec_group_lost_workday_rate (rows df) sel k])) ks"
    and "sum_list (map (spec_group_field f (rows df) sel) (filter (\<lambda>k. fst k = s) ks))
           = (\<Sum>c \<in> spec_companies (rows df) s. spec_company_field f (rows df) s c)"
    and "(s, Some cat) \<notin> set kd \<Longrightarrow> spec_group_companies (rows df) sel s cat = {}"
proof -
  let ?rs = "rows df"
  let ?dd = "deduplicated df"
  have sub: "set ?dd \<subseteq> set ?rs"
    by (simp add: deduplicated_def drop_duplicates_subset)
  have sub0: "set ?rs \<subseteq> set ?rs" by simp
  show dk: "distinct ks"
    unfolding ks_def col_def by (rule group_keys_distinct[OF wf_cats(1,2)[OF w c]])
  have dkd: "distinct kd"
    unfolding kd_def col_def by (rule group_keys_distinct[OF wf_cats(1,2)[OF w c]])
  have cov: "row_key col r \<in> set ks" if "r \<in> set ?rs" for r
    unfolding ks_def col_def
    by (rule group_keys_cover[OF wf_cats(3)[OF w c sub0] wf_cats(4)[OF w c sub0] that])
  have covd: "row_key col r \<in> set kd" if "r \<in> set ?dd" for r
    unfolding kd_def col_def
    by (rule group_keys_cover[OF wf_cats(3)[OF w c sub] wf_cats(4)[OF w c sub] that])
  show "r \<in> set (rows df) \<Longrightarrow> (state_code r, Some (sel r)) \<in> set ks"
    using cov[of r] by (simp add: row_key_def col_def)
  have form: "\<exists>s cat. k = (s, Some cat)" if "k \<in> set ks" for k
    using that unfolding ks_def col_def by (rule group_keys_form)
  have gf: "agg_sum g col ?dd k = spec_group_field g ?rs sel k" if "k \<in> set ks" for k g
    using form[OF that] group_field_agg_sum[of g sel ccats ?rs]
    by (auto simp: col_def deduplicated_def)
  have gc: "agg_count col ?rs k = spec_group_count ?rs sel k" if "k \<in> set ks" for k
    using form[OF that] group_count_agg_count[of sel ccats ?rs]
    by (auto simp: col_def)
  have gr: "agg_sum g col ?rs k = spec_group_row_sum g ?rs sel k" if "k \<in> set ks" for k g
    using form[OF that] group_row_sum_agg_sum[of g sel ccats ?rs]
    by (auto simp: col_def)
  show zero: "spec_group_field f ?rs sel k = 0" if "k \<in> set ks" "k \<notin> set kd" for k
  proof -
    have "filter (\<lambda>r. row_key col r = k) ?dd = []"
      using covd that(2) by (auto simp: filter_empty_conv)
    then have "agg_sum f col ?dd k = 0"
      by (simp add: agg_sum_def group_rows_def)
    with gf[OF that(1)] show ?thesis by simp
  qed
  show "merge_left (injury_data df col) (company_data f df col)
           = map (\<lambda>k. (k, spec_group_count ?rs sel k,
                          if k \<in> set kd then Fin (spec_group_field f ?rs sel k) else NaN)) ks"
  proof -
    have cd: "company_data f df col = map (\<lambda>k. (k, Fin (agg_sum f col ?dd k))) kd"
      by (simp add: company_data_def kd_def)
    have dc: "distinct (map fst (company_data f df col))"
      using dkd by (simp add: cd comp_def)
    have mo: "map_of (company_data f df col) k
                = (if k \<in> set kd then Some (Fin (agg_sum f col ?dd k)) else None)" for k
      unfolding cd by (simp add: map_of_map_restrict restrict_map_def)
    have "merge_left (injury_data df col) (company_data f df col)
            = map (\<lambda>k. (k, agg_count col ?rs k,
                   if k \<in> set kd then Fin (agg_sum f col ?dd k) else NaN)) ks"
      unfolding merge_left_map_of[OF dc]
      by (simp add: injury_data_def ks_def comp_def mo)
    also have "\<dots> = map (\<lambda>k. (k, spec_group_count ?rs sel k,
                          if k \<in> set kd then Fin (spec_group_field f ?rs sel k) else NaN)) ks"
      by (intro map_cong) (auto simp: gc gf)
    finally show ?thesis .
  qed
  show "body (compute_agg_fatality_rate df col)
           = map (\<lambda>k. (k, [spec_group_fatality_rate ?rs sel k])) ks"
    unfolding compute_agg_fatality_rate_def ks_def[symmetric]
    by (auto simp: Let_def gc gr spec_group_fatality_rate_def np_where_def of_count_def)
  show "body (compute_agg_lost_workday_rate df col)
           = map (\<lambda>k. (k, [spec_group_lost_workday_rate ?rs sel k])) ks"
    unfolding compute_agg_lost_workday_rate_def ks_def[symmetric]
    by (auto simp: Let_def gc gr spec_group_lost_workday_rate_def np_where_def of_count_def)
  show "sum_list (map (spec_group_field f ?rs sel) (filter (\<lambda>k. fst k = s) ks))
           = (\<Sum>c \<in> spec_companies ?rs s. spec_company_field f ?rs s c)"
  proof -
    let ?ks_s = "filter (\<lambda>k. fst k = s) ks"
    have "sum_list (map (spec_group_field f ?rs sel) ?ks_s)
            = sum_list (map (\<lambda>k. sum_list (map f (filter (\<lambda>r. row_key col r = k) ?dd))) ?ks_s)"
      by (intro arg_cong[where f = sum_list] map_cong)
         (auto simp: gf[symmetric] agg_sum_def group_rows_def)
    also have "\<dots> = sum_list (map f (filter (\<lambda>r. row_key col r \<in> set ?ks_s) ?dd))"
      using dk by (intro sum_list_groups) simp
    also have "filter (\<lambda>r. row_key col r \<in> set ?ks_s) ?dd = filter (\<lambda>r. state_code r = s) ?dd"
      using cov sub by (intro filter_cong) (auto simp: row_key_def col_def)
    finally show ?thesis
      by (simp add: state_field_sum deduplicated_def)
  qed
  show "spec_group_companies ?rs sel s cat = {}" if n: "(s, Some cat) \<notin> set kd"
  proof (rule ccontr)
    assume "spec_group_companies ?rs sel s cat \<noteq> {}"
    then obtain c r where r: "spec_first_record ?rs s c = Some r" "sel r = cat"
      by (auto simp: spec_group_companies_def)
    from first_record_in_dedup[OF r(1)] have "r \<in> set ?dd" "state_code r = s"
      by (simp_all add: deduplicated_def)
    with covd[of r] r(2) n show False
      by (simp add: row_key_def col_def)
  qed
qed

lemma company_table_keys_observed:
  fixes sel :: "incident \<Rightarrow> 'c::linorder"
  shows "((s, Some cat) \<in> set (group_keys None (Some (sel, None))
                                  (drop_duplicates company_key rs)))
           = (spec_group_companies rs sel s cat \<noteq> {})"
proof
  assume "(s, Some cat) \<in> set (group_keys None (Some (sel, None))
                                  (drop_duplicates company_key rs))"
  then obtain r where r: "r \<in> set (drop_duplicates company_key rs)"
      "state_code r = s" "sel r = cat"
    by (auto simp: group_keys_def)
  then have "r \<in> set rs"
    using drop_duplicates_subset[of company_key rs] by auto
  with r have "company_name r \<in> spec_companies rs s"
    by (auto simp: spec_companies_def)
  with dedup_first_record[OF r(1)] r
  have "company_name r \<in> spec_group_companies rs sel s cat"
    by (simp add: spec_group_companies_def)
  then show "spec_group_companies rs sel s cat \<noteq> {}" by blast
next
  assume "spec_group_companies rs sel s cat \<noteq> {}"
  then obtain c r where r: "spec_first_record rs s c = Some r" "sel r = cat"
    by (auto simp: spec_group_companies_def)
  from first_record_in_dedup[OF r(1)] r(2)
  show "(s, Some cat) \<in> set (group_keys None (Some (sel, None))
                                  (drop_duplicates company_key rs))"
    by (force simp: group_keys_def image_iff)
qed

lemma cell_stats:
  "cell [''incident_rate'', ''fatality_rate'', ''lost_workday_rate'', ''workforce_exposure'']
        [a, b, c, d] ''incident_rate'' = a"
  "cell [''incident_rate'', ''fatality_rate'', ''lost_workday_rate'', ''workforce_exposure'']
        [a, b, c, d] ''fatality_rate'' = b"
  "cell [''incident_rate'', ''fatality_rate'', ''lost_workday_rate'', ''workforce_exposure'']
        [a, b, c, d] ''lost_workday_rate'' = c"
  "cell [''incident_rate'', ''fatality_rate'', ''lost_workday_rate'', ''workforce_exposure'']
        [a, b, c, d] ''workforce_exposure'' = d"
  by (simp_all add: cell_def)

text \<open>
  C3. For every frame and every secondary grouping column, with \<open>ks\<close> the result index
  of grouping the frame's rows by state and category: \<open>ks\<close> has no key twice and holds
  the key of every row, and each of the five metric functions returns exactly one row per
  key of \<open>ks\<close>, in that order. The returned incident rate of a group is its number of
  incident records over the hours of the group's companies, each company counted once with
  the hours of its first record, times \<open>1e5\<close> (0 when that total is not positive); the
  returned workforce exposure divides by the employees of the same companies; the
  fatality and lost-workday rates are sums over the group's records; the danger score is
  the weighted sum of the four. A company is in the group of the category of its first
  record and in no other: the company sets of two categories of a state are disjoint,
  every company of the state is in one of them, a group without a row in the company
  table has no company (and without categorical groupers exactly those groups have none),
  and so the group totals of a company-level field in a state add up to the sum of the
  field over the state's companies, each counted once.
\<close>

theorem secondary_dimension_partitions:
  fixes sel :: "incident \<Rightarrow> 'c::linorder"
  assumes w: "wf_frame df" and c: "wf_column (sel, ccats) df"
  defines "col \<equiv> Some (sel, ccats)"
  defines "rs \<equiv> rows df"
  defines "ks \<equiv> group_keys (state_cats df) col rs"
  defines "kd \<equiv> group_keys (state_cats df) col (deduplicated df)"
  defines "ir \<equiv> spec_group_incident_rate rs sel"
  defines "fr \<equiv> spec_group_fatality_rate rs sel"
  defines "lw \<equiv> spec_group_lost_workday_rate rs sel"
  defines "we \<equiv> (\<lambda>k. spec_group_workforce_exposure rs sel (k \<in> set kd) k)"
  shows "distinct ks
       \<and> (\<forall>r \<in> set rs. (state_code r, Some (sel r)) \<in> set ks)
       \<and> body (compute_agg_incident_rate df col) = map (\<lambda>k. (k, [ir k])) ks
       \<and> body (compute_agg_fatality_rate df col) = map (\<lambda>k. (k, [fr k])) ks
       \<and> body (compute_agg_lost_workday_rate df col) = map (\<lambda>k. (k, [lw k])) ks
       \<and> body (compute_workforce_exposure df col) = map (\<lambda>k. (k, [we k])) ks
       \<and> body (compute_agg_safety_score df col)
           = map (\<lambda>k. (k, [ir k, fr k, lw k, we k,
                             spec_danger_score (ir k) (fr k) (lw k) (we k)])) ks
       \<and> ((s, Some cat) \<notin> set kd \<longrightarrow> spec_group_companies rs sel s cat = {})
       \<and> (state_cats df = None \<and> ccats = None \<longrightarrow>
            ((s, Some cat) \<in> set kd) = (spec_group_companies rs sel s cat \<noteq> {}))
       \<and> (cat \<noteq> cat' \<longrightarrow>
            spec_group_companies rs sel s cat \<inter> spec_group_companies rs sel s cat' = {})
       \<and> (\<forall>c \<in> spec_companies rs s.
            \<exists>cat. (s, Some cat) \<in> set ks \<and> c \<in> spec_group_companies rs sel s cat)
       \<and> sum_list (map (spec_group_field f rs sel) (filter (\<lambda>k. fst k = s) ks))
           = (\<Sum>c \<in> spec_companies rs s. spec_company_field f rs s c)"
proof -
  note gt = group_tables[OF w c, folded col_def rs_def, folded ks_def kd_def]
  have dk: "distinct ks" by (rule gt(1))
  have cov: "\<forall>r \<in> set rs. (state_code r, Some (sel r)) \<in> set ks"
    using gt(2) by blast
  have b_ir: "body (compute_agg_incident_rate df col) = map (\<lambda>k. (k, [ir k])) ks"
  proof -
    have "body (compute_agg_incident_rate df col)
            = map (\<lambda>k. (k, [np_where
                   (fgt (if k \<in> set kd then Fin (spec_group_field total_hours_worked rs sel k)
                         else NaN) (Fin 0))
                   (fmul (fdiv (of_count (spec_group_count rs sel k))
                      (if k \<in> set kd then Fin (spec_group_field total_hours_worked rs sel k)
                       else NaN)) (Fin 100000))
                   (Fin 0)])) ks"
      by (simp add: compute_agg_incident_rate_def Let_def gt(4) comp_def del: fgt.simps)
    also have "\<dots> = map (\<lambda>k. (k, [ir k])) ks"
    proof (intro map_cong refl)
      fix k assume k: "k \<in> set ks"
      show "(k, [np_where
                   (fgt (if k \<in> set kd then Fin (spec_group_field total_hours_worked rs sel k)
                         else NaN) (Fin 0))
                   (fmul (fdiv (of_count (spec_group_count rs sel k))
                      (if k \<in> set kd then Fin (spec_group_field total_hours_worked rs sel k)
                       else NaN)) (Fin 100000))
                   (Fin 0)]) = (k, [ir k])"
      proof (cases "k \<in> set kd")
        case True
        then show ?thesis
          by (simp add: incident_rate_cell ir_def spec_group_incident_rate_def Let_def
              del: fgt.simps)
      next
        case False
        with gt(3)[OF k False, of total_hours_worked] show ?thesis
          by (simp add: ir_def spec_group_incident_rate_def Let_def np_where_def)
      qed
    qed
    finally show ?thesis .
  qed
  have b_fr: "body (compute_agg_fatality_rate df col) = map (\<lambda>k. (k, [fr k])) ks"
    unfolding fr_def by (rule gt(5))
  have b_lw: "body (compute_agg_lost_workday_rate df col) = map (\<lambda>k. (k, [lw k])) ks"
    unfolding lw_def by (rule gt(6))
  have b_we: "body (compute_workforce_exposure df col) = map (\<lambda>k. (k, [we k])) ks"
  proof -
    have "body (compute_workforce_exposure df col)
            = map (\<lambda>k. (k, [np_where (fgt (of_count (spec_group_count rs sel k)) (Fin 0))
                   (fmul (fdiv (of_count (spec_group_count rs sel k))
                      (if k \<in> set kd
                       then Fin (spec_group_field annual_average_employees rs sel k)
                       else NaN)) (Fin 100))
                   (Fin 0)])) ks"
      by (simp add: compute_workforce_exposure_def Let_def gt(4) comp_def del: fgt.simps)
    also have "\<dots> = map (\<lambda>k. (k, [we k])) ks"
      by (intro map_cong refl)
         (simp add: we_def spec_group_workforce_exposure_def Let_def np_where_def of_count_def)
    finally show ?thesis .
  qed
  have b_ss: "body (compute_agg_safety_score df col)
           = map (\<lambda>k. (k, [ir k, fr k, lw k, we k,
                             spec_danger_score (ir k) (fr k) (lw k) (we k)])) ks"
  proof -
    let ?stats = "merge_tables (merge_tables (merge_tables
                    (compute_agg_incident_rate df col)
                    (compute_agg_fatality_rate df col))
                    (compute_agg_lost_workday_rate df col))
                    (compute_workforce_exposure df col)"
    have m1: "body (merge_tables (compute_agg_incident_rate df col)
                      (compute_agg_fatality_rate df col))
                = map (\<lambda>k. (k, [ir k] @ [fr k])) ks"
      by (rule merge_tables_same_keys[OF dk b_ir b_fr])
    have m2: "body (merge_tables (merge_tables (compute_agg_incident_rate df col)
                      (compute_agg_fatality_rate df col))
                      (compute_agg_lost_workday_rate df col))
                = map (\<lambda>k. (k, ([ir k] @ [fr k]) @ [lw k])) ks"
      by (rule merge_tables_same_keys[OF dk m1 b_lw])
    have m3: "body ?stats = map (\<lambda>k. (k, (([ir k] @ [fr k]) @ [lw k]) @ [we k])) ks"
      by (rule merge_tables_same_keys[OF dk m2 b_we])
    have cs: "columns ?stats = [''incident_rate'', ''fatality_rate'', ''lost_workday_rate'',
                                ''workforce_exposure'']"
      by (simp add: merge_tables_def compute_agg_incident_rate_def
          compute_agg_fatality_rate_def compute_agg_lost_workday_rate_def
          compute_workforce_exposure_def Let_def)
    show ?thesis
      unfolding compute_agg_safety_score_def Let_def cs m3
      by (simp add: comp_def cell_stats spec_danger_score_def)
  qed
  have empty: "(s, Some cat) \<notin> set kd \<longrightarrow> spec_group_companies rs sel s cat = {}"
    using gt(8) by blast
  have obs: "state_cats df = None \<and> ccats = None \<longrightarrow>
            ((s, Some cat) \<in> set kd) = (spec_group_companies rs sel s cat \<noteq> {})"
    using company_table_keys_observed[of s cat sel rs]
    by (simp add: kd_def col_def deduplicated_def rs_def)
  have disj: "cat \<noteq> cat' \<longrightarrow>
            spec_group_companies rs sel s cat \<inter> spec_group_companies rs sel s cat' = {}"
    by (auto simp: spec_group_companies_def)
  have all: "\<forall>c \<in> spec_companies rs s.
            \<exists>cat. (s, Some cat) \<in> set ks \<and> c \<in> spec_group_companies rs sel s cat"
  proof
    fix c assume m: "c \<in> spec_companies rs s"
    then have "spec_first_record rs s c \<noteq> None"
      by (auto simp: spec_companies_def spec_first_record_def find_None_iff)
    then obtain r where r: "spec_first_record rs s c = Some r" by auto
    then have "r \<in> set rs" "state_code r = s"
      unfolding spec_first_record_def by (auto simp: find_Some_iff)
    with cov have "(s, Some (sel r)) \<in> set ks" by auto
    moreover have "c \<in> spec_group_companies rs sel s (sel r)"
      using m r by (simp add: spec_group_companies_def)
    ultimately show "\<exists>cat. (s, Some cat) \<in> set ks \<and> c \<in> spec_group_companies rs sel s cat"
      by blast
  qed
  show ?thesis
    using dk cov b_ir b_fr b_lw b_we b_ss empty obs disj all gt(7) by blast
qed

text \<open>
  On three incidents in CA (company Acme in the categories A and Z, company Bolt in Z)
  Acme's 1000 hours are counted in A only: the rate of A is \<open>1 / 1000 * 1e5 = 100\<close>,
  that of Z is \<open>2 / 500 * 1e5 = 400\<close>, and the group totals add up to the state's 1500
  hours.
\<close>

theorem secondary_dimension_partitions_witness:
  "wf_frame example_secondary \<and> wf_column (soc_description_1, None) example_secondary
   \<and> group_keys (state_cats example_secondary) (Some (soc_description_1, None))
        (rows example_secondary) = [(''CA'', Some ''A''), (''CA'', Some ''Z'')]
   \<and> body (compute_agg_incident_rate example_secondary (Some (soc_description_1, None)))
        = [((''CA'', Some ''A''), [Fin 100]), ((''CA'', Some ''Z''), [Fin 400])]
   \<and> spec_group_incident_rate (rows example_secondary) soc_description_1 (''CA'', Some ''A'')
        = Fin 100
   \<and> spec_group_incident_rate (rows example_secondary) soc_description_1 (''CA'', Some ''Z'')
        = Fin 400
   \<and> sum_list (map (spec_group_field total_hours_worked (rows example_secondary)
                       soc_description_1)
         (filter (\<lambda>k. fst k = ''CA'')
            (group_keys (state_cats example_secondary) (Some (soc_description_1, None))
               (rows example_secondary)))) = 1500"
proof -
  have w: "wf_frame example_secondary" by code_simp
  have c: "wf_column (soc_description_1, None) example_secondary"
    by (simp add: wf_column_def)
  have ks: "group_keys (state_cats example_secondary) (Some (soc_description_1, None))
        (rows example_secondary) = [(''CA'', Some ''A''), (''CA'', Some ''Z'')]"
    by code_simp
  have b: "body (compute_agg_incident_rate example_secondary (Some (soc_description_1, None)))
        = [((''CA'', Some ''A''), [Fin 100]), ((''CA'', Some ''Z''), [Fin 400])]"
    by code_simp
  have t: "(\<Sum>c \<in> spec_companies (rows example_secondary) ''CA''.
              spec_company_field total_hours_worked (rows example_secondary) ''CA'' c) = 1500"
    by code_simp
  from secondary_dimension_partitions[OF w c, where f = total_hours_worked and s = "''CA''"]
  have "body (compute_agg_incident_rate example_secondary (Some (soc_description_1, None)))
          = map (\<lambda>k. (k, [spec_group_incident_rate (rows example_secondary)
                              soc_description_1 k]))
              (group_keys (state_cats example_secondary) (Some (soc_description_1, None))
                 (rows example_secondary))"
    and "sum_list (map (spec_group_field total_hours_worked (rows example_secondary)
                       soc_description_1)
         (filter (\<lambda>k. fst k = ''CA'')
            (group_keys (state_cats example_secondary) (Some (soc_description_1, None))
               (rows example_secondary))))
         = (\<Sum>c \<in> spec_companies (rows example_secondary) ''CA''.
              spec_company_field total_hours_worked (rows example_secondary) ''CA'' c)"
    by blast+
  then show ?thesis
    unfolding t using w c ks b by simp
qed

end
